theory Spec2Isabelle
  imports Main "HOL-Library.Word"
begin

section \<open>JavaScript values and errors\<close>

text \<open>
  The relay (\<^verbatim>\<open>src/proxy-server.js\<close>) works on the value that \<^verbatim>\<open>JSON.parse\<close> returns
  and on object literals built from it. A JavaScript string is a sequence of 16-bit
  code units, well-formed UTF-16 or not; a number is an IEEE 754 double, held as its
  64 bits; a \<^verbatim>\<open>Buffer\<close> and every text on the wire is a sequence of bytes (\<open>string\<close>).
  \<open>Undefined\<close> is the value of a property that is missing; it never occurs inside a
  parsed value. An object is the list of its own properties in enumeration order.
\<close>

type_synonym jstring = "16 word list"

type_synonym number = "64 word"

datatype js =
    Undefined
  | Null
  | Bool bool
  | Num number
  | Str jstring
  | Arr "js list"
  | Obj "(jstring \<times> js) list"

datatype js_error =
    ReferenceError string
  | TypeError string
  | SyntaxError string
  | URIError string
  | NodeError string

text \<open>A string literal of the source text, all of them ASCII.\<close>

definition ascii :: "string \<Rightarrow> jstring" where
  "ascii s = map (\<lambda>c. of_nat (of_char c)) s"

text \<open>
  \<^verbatim>\<open>data.k\<close>: reading a property of \<^verbatim>\<open>null\<close> or \<^verbatim>\<open>undefined\<close> throws a TypeError; an
  object yields its own property; every other value (and an object without the
  property) yields \<^verbatim>\<open>undefined\<close>. The code reads only \<^verbatim>\<open>model\<close>, \<^verbatim>\<open>max_tokens\<close>,
  \<^verbatim>\<open>messages\<close> and \<^verbatim>\<open>prompt\<close>, none of which a prototype defines.
\<close>

fun own :: "(jstring \<times> js) list \<Rightarrow> jstring \<Rightarrow> js" where
  "own [] k = Undefined"
| "own ((k', v) # kvs) k = (if k' = k then v else own kvs k)"

fun get_prop :: "js \<Rightarrow> string \<Rightarrow> js_error + js" where
  "get_prop Undefined k = Inl (TypeError (''Cannot read properties of undefined (reading '' @ k @ '')''))"
| "get_prop Null k = Inl (TypeError (''Cannot read properties of null (reading '' @ k @ '')''))"
| "get_prop (Obj kvs) k = Inr (own kvs (ascii k))"
| "get_prop v k = Inr Undefined"

text \<open>The value of \<^verbatim>\<open>data.k\<close> where the read does not throw.\<close>

definition field :: "js \<Rightarrow> string \<Rightarrow> js" where
  "field data k = (case get_prop data k of Inl e \<Rightarrow> Undefined | Inr v \<Rightarrow> v)"

text \<open>
  Truthiness, and \<^verbatim>\<open>a || b\<close>, which yields \<^verbatim>\<open>a\<close> when \<^verbatim>\<open>a\<close> is truthy and \<^verbatim>\<open>b\<close>
  otherwise. A number is falsy when it is \<open>+0\<close>, \<open>-0\<close> or NaN: with the sign bit
  cleared, its bits are 0, or above those of infinity (exponent all ones, fraction
  not zero). It is finite when they are below those of infinity.
\<close>

definition magnitude :: "number \<Rightarrow> nat" where
  "magnitude x = unat x mod 2 ^ 63"

definition finite_number :: "number \<Rightarrow> bool" where
  "finite_number x \<longleftrightarrow> magnitude x < 0x7FF0000000000000"

fun truthy :: "js \<Rightarrow> bool" where
  "truthy Undefined = False"
| "truthy Null = False"
| "truthy (Bool b) = b"
| "truthy (Num x) = (magnitude x \<noteq> 0 \<and> magnitude x \<le> 0x7FF0000000000000)"
| "truthy (Str s) = (s \<noteq> [])"
| "truthy (Arr xs) = True"
| "truthy (Obj kvs) = True"

definition js_or :: "js \<Rightarrow> js \<Rightarrow> js" where
  "js_or a b = (if truthy a then a else b)"

text \<open>The number literal \<^verbatim>\<open>4096\<close> of line 61: sign 0, exponent 1023 + 12, fraction 0.\<close>

definition number_4096 :: number where
  "number_4096 = 0x40B0000000000000"

subsection \<open>String conversion\<close>

fun join :: "'a list \<Rightarrow> 'a list list \<Rightarrow> 'a list" where
  "join sep [] = []"
| "join sep [x] = x"
| "join sep (x # y # ys) = x @ sep @ join sep (y # ys)"

text \<open>
  \<^verbatim>\<open>`${v}`\<close>: the string conversion of a template literal. The conversion of a number
  (ECMAScript's \<open>Number::toString\<close>) is a function of the platform, \<open>number_text\<close>. An
  array joins the conversions of its elements with commas (\<^verbatim>\<open>null\<close> and \<^verbatim>\<open>undefined\<close>
  elements give the empty string). An object gives \<^verbatim>\<open>[object Object]\<close> through
  \<^verbatim>\<open>Object.prototype.toString\<close>, unless it has an own property \<^verbatim>\<open>toString\<close>: a parsed
  value is never callable, and \<^verbatim>\<open>valueOf\<close> does not yield a primitive either, so the
  conversion throws.
\<close>

fun sequence :: "(js_error + 'a) list \<Rightarrow> js_error + 'a list" where
  "sequence [] = Inr []"
| "sequence (Inl e # rs) = Inl e"
| "sequence (Inr x # rs) = (case sequence rs of Inl e \<Rightarrow> Inl e | Inr xs \<Rightarrow> Inr (x # xs))"

fun to_string :: "(number \<Rightarrow> jstring) \<Rightarrow> js \<Rightarrow> js_error + jstring" where
  "to_string number_text Undefined = Inr (ascii ''undefined'')"
| "to_string number_text Null = Inr (ascii ''null'')"
| "to_string number_text (Bool b) = Inr (if b then ascii ''true'' else ascii ''false'')"
| "to_string number_text (Num x) = Inr (number_text x)"
| "to_string number_text (Str s) = Inr s"
| "to_string number_text (Arr xs) =
     (case sequence (map (\<lambda>x. case x of Undefined \<Rightarrow> Inr [] | Null \<Rightarrow> Inr []
                                  | _ \<Rightarrow> to_string number_text x) xs) of
        Inl e \<Rightarrow> Inl e
      | Inr ss \<Rightarrow> Inr (join (ascii '','') ss))"
| "to_string number_text (Obj kvs) =
     (if ascii ''toString'' \<in> fst ` set kvs
      then Inl (TypeError ''Cannot convert object to primitive value'')
      else Inr (ascii ''[object Object]''))"

section \<open>JSON.stringify\<close>

text \<open>
  The text \<^verbatim>\<open>JSON.stringify\<close> writes, without indentation. A string is quoted with the
  escapes of ECMAScript's QuoteJSONString: the double quote, the backslash, the
  control characters below 0x20, and a surrogate code unit that is not half of a
  pair (\<^verbatim>\<open>\udXXX\<close>, in lower-case digits). A finite number is written by
  \<open>number_text\<close>, any other as \<^verbatim>\<open>null\<close>. A property whose value is \<^verbatim>\<open>undefined\<close> is left
  out of an object; an \<^verbatim>\<open>undefined\<close> array element is written \<^verbatim>\<open>null\<close>. The code applies
  \<^verbatim>\<open>JSON.stringify\<close> to object literals only.
\<close>

definition digit :: "nat \<Rightarrow> 16 word" where
  "digit n = ascii ''0123456789abcdef'' ! n"

definition high_surrogate :: "16 word \<Rightarrow> bool" where
  "high_surrogate u \<longleftrightarrow> 0xD800 \<le> unat u \<and> unat u \<le> 0xDBFF"

definition low_surrogate :: "16 word \<Rightarrow> bool" where
  "low_surrogate u \<longleftrightarrow> 0xDC00 \<le> unat u \<and> unat u \<le> 0xDFFF"

definition unicode_escape :: "nat \<Rightarrow> jstring" where
  "unicode_escape n =
     ascii [CHR 0x5C, CHR ''u''] @
     [digit (n div 4096), digit (n div 256 mod 16), digit (n div 16 mod 16), digit (n mod 16)]"

definition json_escape :: "16 word \<Rightarrow> jstring" where
  "json_escape u =
     (let n = unat u in
      if n = 0x22 then ascii [CHR 0x5C, CHR 0x22]
      else if n = 0x5C then ascii [CHR 0x5C, CHR 0x5C]
      else if n = 0x08 then ascii [CHR 0x5C, CHR ''b'']
      else if n = 0x09 then ascii [CHR 0x5C, CHR ''t'']
      else if n = 0x0A then ascii [CHR 0x5C, CHR ''n'']
      else if n = 0x0C then ascii [CHR 0x5C, CHR ''f'']
      else if n = 0x0D then ascii [CHR 0x5C, CHR ''r'']
      else if n < 0x20 \<or> high_surrogate u \<or> low_surrogate u then unicode_escape n
      else [u])"

fun json_escapes :: "jstring \<Rightarrow> jstring" where
  "json_escapes [] = []"
| "json_escapes [u] = json_escape u"
| "json_escapes (u # v # us) =
     (if high_surrogate u \<and> low_surrogate v then u # v # json_escapes us
      else json_escape u @ json_escapes (v # us))"

definition json_quote :: "jstring \<Rightarrow> jstring" where
  "json_quote s = ascii [CHR 0x22] @ json_escapes s @ ascii [CHR 0x22]"

fun stringify :: "(number \<Rightarrow> jstring) \<Rightarrow> js \<Rightarrow> jstring"
  and stringify_elems :: "(number \<Rightarrow> jstring) \<Rightarrow> js list \<Rightarrow> jstring list"
  and stringify_props :: "(number \<Rightarrow> jstring) \<Rightarrow> (jstring \<times> js) list \<Rightarrow> jstring list" where
  "stringify number_text Undefined = []"
| "stringify number_text Null = ascii ''null''"
| "stringify number_text (Bool b) = (if b then ascii ''true'' else ascii ''false'')"
| "stringify number_text (Num x) = (if finite_number x then number_text x else ascii ''null'')"
| "stringify number_text (Str s) = json_quote s"
| "stringify number_text (Arr xs) =
     ascii ''['' @ join (ascii '','') (stringify_elems number_text xs) @ ascii '']''"
| "stringify number_text (Obj kvs) =
     ascii ''{'' @ join (ascii '','') (stringify_props number_text kvs) @ ascii ''}''"
| "stringify_elems number_text [] = []"
| "stringify_elems number_text (x # xs) =
     (case x of Undefined \<Rightarrow> ascii ''null'' | _ \<Rightarrow> stringify number_text x)
       # stringify_elems number_text xs"
| "stringify_props number_text [] = []"
| "stringify_props number_text ((k, v) # kvs) =
     (case v of
        Undefined \<Rightarrow> stringify_props number_text kvs
      | _ \<Rightarrow> (json_quote k @ ascii '':'' @ stringify number_text v)
               # stringify_props number_text kvs)"

section \<open>Buffers and strings\<close>

text \<open>
  A chunk of a request or response body is a \<^verbatim>\<open>Buffer\<close>, a sequence of bytes.
  \<^verbatim>\<open>body += chunk.toString()\<close> (line 34) and \<^verbatim>\<open>responseBody += chunk\<close> (lines 82, 122,
  164) convert each chunk to a string by decoding it as UTF-8, and \<^verbatim>\<open>res.end(string)\<close>
  and \<^verbatim>\<open>proxyReq.write(string)\<close> send the string's UTF-8 encoding. The decoder is the
  one of the WHATWG Encoding standard: a lead byte fixes the number of continuation
  bytes, the range of the first one and the leading bits of the code point; a byte
  outside the range ends the sequence with one U+FFFD and is decoded again as a first
  byte; a chunk that ends inside a sequence yields one U+FFFD. A code point above
  U+FFFF becomes a surrogate pair.
\<close>

definition replacement :: string where
  "replacement = [CHR 0xEF, CHR 0xBF, CHR 0xBD]"

datatype lead = Ascii | Lead nat nat nat nat | Bad

definition classify :: "char \<Rightarrow> lead" where
  "classify c =
     (let b = (of_char c :: nat) in
      if b < 0x80 then Ascii
      else if 0xC2 \<le> b \<and> b \<le> 0xDF then Lead 1 0x80 0xBF (b - 0xC0)
      else if b = 0xE0 then Lead 2 0xA0 0xBF 0
      else if b = 0xED then Lead 2 0x80 0x9F 0xD
      else if 0xE1 \<le> b \<and> b \<le> 0xEF then Lead 2 0x80 0xBF (b - 0xE0)
      else if b = 0xF0 then Lead 3 0x90 0xBF 0
      else if b = 0xF4 then Lead 3 0x80 0x8F 4
      else if 0xF1 \<le> b \<and> b \<le> 0xF3 then Lead 3 0x80 0xBF (b - 0xF0)
      else Bad)"

text \<open>
  The decoder's state is \<open>None\<close> between characters, and inside a sequence
  \<open>Some (needed, lower, upper, point)\<close>: how many continuation bytes are missing, the
  range allowed for the next one, and the bits of the code point read so far.
\<close>

fun decode_points :: "(nat \<times> nat \<times> nat \<times> nat) option \<Rightarrow> string \<Rightarrow> nat list" where
  "decode_points None [] = []"
| "decode_points (Some st) [] = [0xFFFD]"
| "decode_points None (c # cs) =
     (case classify c of
        Ascii \<Rightarrow> of_char c # decode_points None cs
      | Lead n lo hi point \<Rightarrow> decode_points (Some (n, lo, hi, point)) cs
      | Bad \<Rightarrow> 0xFFFD # decode_points None cs)"
| "decode_points (Some (n, lo, hi, point)) (c # cs) =
     (if lo \<le> of_char c \<and> (of_char c :: nat) \<le> hi
      then (if n \<le> 1 then (point * 64 + (of_char c - 0x80)) # decode_points None cs
            else decode_points (Some (n - 1, 0x80, 0xBF, point * 64 + (of_char c - 0x80))) cs)
      else 0xFFFD #
        (case classify c of
           Ascii \<Rightarrow> of_char c # decode_points None cs
         | Lead n' lo' hi' point' \<Rightarrow> decode_points (Some (n', lo', hi', point')) cs
         | Bad \<Rightarrow> 0xFFFD # decode_points None cs))"

definition utf16 :: "nat \<Rightarrow> jstring" where
  "utf16 point =
     (if point < 0x10000 then [of_nat point]
      else [of_nat (0xD800 + (point - 0x10000) div 0x400),
            of_nat (0xDC00 + (point - 0x10000) mod 0x400)])"

definition buffer_toString :: "string \<Rightarrow> jstring" where
  "buffer_toString chunk = concat (map utf16 (decode_points None chunk))"

text \<open>
  The UTF-8 encoding of a string: a surrogate pair is one code point, a surrogate that
  is not half of a pair is written as U+FFFD.
\<close>

fun code_points :: "jstring \<Rightarrow> nat list" where
  "code_points [] = []"
| "code_points [u] = [if high_surrogate u \<or> low_surrogate u then 0xFFFD else unat u]"
| "code_points (u # v # us) =
     (if high_surrogate u \<and> low_surrogate v
      then (0x10000 + (unat u - 0xD800) * 0x400 + (unat v - 0xDC00)) # code_points us
      else (if high_surrogate u \<or> low_surrogate u then 0xFFFD else unat u)
             # code_points (v # us))"

definition utf8_bytes :: "nat \<Rightarrow> string" where
  "utf8_bytes point =
     (if point < 0x80 then [char_of point]
      else if point < 0x800 then [char_of (0xC0 + point div 64), char_of (0x80 + point mod 64)]
      else if point < 0x10000
      then [char_of (0xE0 + point div 4096), char_of (0x80 + point div 64 mod 64),
            char_of (0x80 + point mod 64)]
      else [char_of (0xF0 + point div 262144), char_of (0x80 + point div 4096 mod 64),
            char_of (0x80 + point div 64 mod 64), char_of (0x80 + point mod 64)])"

definition utf8_encode :: "jstring \<Rightarrow> string" where
  "utf8_encode s = concat (map utf8_bytes (code_points s))"

text \<open>A Unicode scalar value: a code point that is not a surrogate.\<close>

definition scalar :: "nat \<Rightarrow> bool" where
  "scalar p \<longleftrightarrow> p < 0x110000 \<and> \<not> (0xD800 \<le> p \<and> p < 0xE000)"

text \<open>
  Well-formed UTF-8 (the Unicode standard's table of well-formed byte sequences): each
  character is one ASCII byte, or a lead byte with its continuation bytes, the first
  of them in the range the lead byte allows.
\<close>

function well_formed :: "string \<Rightarrow> bool" where
  "well_formed [] = True"
| "well_formed (c # cs) =
     (case classify c of
        Ascii \<Rightarrow> well_formed cs
      | Lead n lo hi point \<Rightarrow>
          (case cs of
             [] \<Rightarrow> False
           | d # ds \<Rightarrow>
               lo \<le> of_char d \<and> (of_char d :: nat) \<le> hi
               \<and> n - 1 \<le> length ds
               \<and> list_all (\<lambda>e. 0x80 \<le> (of_char e :: nat) \<and> (of_char e :: nat) \<le> 0xBF)
                     (take (n - 1) ds)
               \<and> well_formed (drop (n - 1) ds))
      | Bad \<Rightarrow> False)"
  by pat_completeness auto
termination
  by (relation "measure length") auto

text \<open>\<^verbatim>\<open>Buffer.byteLength(s)\<close>: the length of the UTF-8 encoding of \<^verbatim>\<open>s\<close>.\<close>

definition byteLength :: "jstring \<Rightarrow> nat" where
  "byteLength s = length (utf8_encode s)"

section \<open>The response channel\<close>

text \<open>
  \<^verbatim>\<open>res\<close> is the channel to the original caller. The model keeps the calls the code
  makes on it, in order, and reads the response off them the way Node's
  \<^verbatim>\<open>http.ServerResponse\<close> does: \<^verbatim>\<open>setHeader\<close> stores a header under its lower-cased
  name, \<^verbatim>\<open>writeHead\<close> adds its headers to the stored ones and sends the head,
  \<^verbatim>\<open>end\<close> writes the body, the UTF-8 encoding of its argument, and finishes the
  response. \<^verbatim>\<open>setHeader\<close> and \<^verbatim>\<open>writeHead\<close> throw once the head is sent; \<^verbatim>\<open>end\<close> without
  \<^verbatim>\<open>writeHead\<close> sends status 200; a second \<^verbatim>\<open>end\<close> does nothing. A status code is one
  that \<^verbatim>\<open>writeHead\<close> accepts (100 to 999); the headers Node adds by itself (\<^verbatim>\<open>Date\<close>,
  \<^verbatim>\<open>Connection\<close>, the body's framing) are left out.
\<close>

datatype res_call =
    SetHeader string string
  | WriteHead nat "(string \<times> string) list"
  | End jstring

definition lower :: "char \<Rightarrow> char" where
  "lower c =
     (case map_of (zip ''ABCDEFGHIJKLMNOPQRSTUVWXYZ'' ''abcdefghijklmnopqrstuvwxyz'') c of
        Some d \<Rightarrow> d
      | None \<Rightarrow> c)"

fun set_header :: "string \<Rightarrow> string \<Rightarrow> (string \<times> string) list \<Rightarrow> (string \<times> string) list" where
  "set_header n v [] = [(n, v)]"
| "set_header n v ((n', v') # hs) =
     (if map lower n' = map lower n then (n, v) # hs else (n', v') # set_header n v hs)"

fun get_header :: "(string \<times> string) list \<Rightarrow> string \<Rightarrow> string option" where
  "get_header [] n = None"
| "get_header ((n', v') # hs) n =
     (if map lower n' = map lower n then Some v' else get_header hs n)"

record channel =
  headers :: "(string \<times> string) list"
  statusCode :: "nat option"
  finished :: "jstring option"

definition fresh :: channel where
  "fresh = \<lparr>headers = [], statusCode = None, finished = None\<rparr>"

fun res_step :: "res_call \<Rightarrow> channel \<Rightarrow> js_error + channel" where
  "res_step (SetHeader n v) c =
     (if statusCode c \<noteq> None then Inl (NodeError ''ERR_HTTP_HEADERS_SENT'')
      else Inr (c\<lparr>headers := set_header n v (headers c)\<rparr>))"
| "res_step (WriteHead st hs) c =
     (if statusCode c \<noteq> None then Inl (NodeError ''ERR_HTTP_HEADERS_SENT'')
      else Inr (c\<lparr>headers := fold (\<lambda>(n, v). set_header n v) hs (headers c),
                 statusCode := Some st\<rparr>))"
| "res_step (End b) c =
     (case finished c of
        Some b' \<Rightarrow> Inr c
      | None \<Rightarrow> Inr (c\<lparr>statusCode := (case statusCode c of None \<Rightarrow> Some 200 | Some st \<Rightarrow> Some st),
                       finished := Some b\<rparr>))"

fun res_run :: "res_call list \<Rightarrow> channel \<Rightarrow> js_error + channel" where
  "res_run [] c = Inr c"
| "res_run (x # xs) c = (case res_step x c of Inl e \<Rightarrow> Inl e | Inr c' \<Rightarrow> res_run xs c')"

record response =
  status :: nat
  header_fields :: "(string \<times> string) list"
  body :: string

definition cors_fields :: "(string \<times> string) list" where
  "cors_fields =
     [(''Access-Control-Allow-Origin'', ''*''),
      (''Access-Control-Allow-Methods'', ''POST, OPTIONS''),
      (''Access-Control-Allow-Headers'', ''Content-Type'')]"

definition json_type :: "(string \<times> string) list" where
  "json_type = [(''Content-Type'', ''application/json'')]"

text \<open>The response the caller receives, once the calls have finished one.\<close>

definition response_of :: "res_call list \<Rightarrow> response option" where
  "response_of calls =
     (case res_run calls fresh of
        Inl e \<Rightarrow> None
      | Inr c \<Rightarrow>
          (case (statusCode c, finished c) of
             (Some st, Some b) \<Rightarrow>
               Some \<lparr>status = st, header_fields = headers c, body = utf8_encode b\<rparr>
           | _ \<Rightarrow> None))"

fun is_end :: "res_call \<Rightarrow> bool" where
  "is_end (End b) = True"
| "is_end c = False"

fun is_head :: "res_call \<Rightarrow> bool" where
  "is_head (WriteHead st hs) = True"
| "is_head c = False"

text \<open>
  Exactly one response: the calls run without an exception, the head is written once
  and the response is ended once.
\<close>

definition one_response :: "res_call list \<Rightarrow> bool" where
  "one_response calls \<longleftrightarrow>
     \<not> isl (res_run calls fresh) \<and> length (filter is_head calls) = 1 \<and> length (filter is_end calls) = 1"

section \<open>Start-up (lines 1-9)\<close>

text \<open>
  Lines 1-3 bind \<^verbatim>\<open>http\<close>, \<^verbatim>\<open>https\<close> and \<^verbatim>\<open>url\<close>; the file declares \<^verbatim>\<open>API_KEYS\<close>,
  \<^verbatim>\<open>server\<close>, \<^verbatim>\<open>PORT\<close> and the three adapter functions, and nothing named \<^verbatim>\<open>os\<close>. Line 6
  evaluates \<^verbatim>\<open>os.getenv('ANTHROPIC_API_KEY')\<close>, so what \<^verbatim>\<open>os\<close> denotes is up to the host:
  \<open>os_global\<close> is \<open>None\<close> when the host defines no such global (Node.js running a script),
  and otherwise the object's functions of one string argument, by name. The text of
  the file never mentions \<^verbatim>\<open>process.env\<close>; the environment is part of the host all the
  same.
\<close>

type_synonym js_object = "string \<Rightarrow> (string \<Rightarrow> jstring option) option"

record host =
  os_global :: "js_object option"
  environment :: "string \<Rightarrow> string option"

record api_keys =
  anthropic :: "jstring option"
  openai :: "jstring option"
  google :: "jstring option"

definition os_getenv :: "host \<Rightarrow> string \<Rightarrow> js_error + jstring option" where
  "os_getenv h name =
     (case os_global h of
        None \<Rightarrow> Inl (ReferenceError ''os is not defined'')
      | Some obj \<Rightarrow>
          (case obj ''getenv'' of
             None \<Rightarrow> Inl (TypeError ''os.getenv is not a function'')
           | Some f \<Rightarrow> Inr (f name)))"

text \<open>
  The object literal of lines 5-9 evaluates its three properties in order; an
  exception leaves the module, and the process, before \<^verbatim>\<open>server.listen\<close> (line 183).
  \<open>Inr keys\<close> is the process listening with \<^verbatim>\<open>API_KEYS = keys\<close>.
\<close>

definition start :: "host \<Rightarrow> js_error + api_keys" where
  "start h =
     (case os_getenv h ''ANTHROPIC_API_KEY'' of Inl e \<Rightarrow> Inl e | Inr a \<Rightarrow>
     (case os_getenv h ''OPENAI_API_KEY'' of Inl e \<Rightarrow> Inl e | Inr oa \<Rightarrow>
     (case os_getenv h ''GOOGLE_API_KEY'' of Inl e \<Rightarrow> Inl e | Inr g \<Rightarrow>
        Inr \<lparr>anthropic = a, openai = oa, google = g\<rparr>)))"

section \<open>Node.js\<close>

text \<open>
  The request an adapter hands to \<^verbatim>\<open>https.request\<close>: the options, and \<open>written\<close>, the
  argument of \<^verbatim>\<open>proxyReq.write(postData)\<close>, which goes out in UTF-8. A header value is
  whatever the code puts there: a string, a byte count (\<^verbatim>\<open>Content-Length\<close>) or
  \<^verbatim>\<open>undefined\<close> (an unset key).
\<close>

datatype header_value = Text jstring | Count nat | Unset

record client_request =
  hostname :: string
  port :: nat
  path :: jstring
  http_method :: string
  request_headers :: "(string \<times> header_value) list"
  written :: jstring

text \<open>
  Four functions of Node.js that the file uses and does not define: \<^verbatim>\<open>JSON.parse\<close>,
  which yields a value or throws a SyntaxError; \<^verbatim>\<open>url.parse\<close>, see below;
  \<^verbatim>\<open>https.request\<close> with the \<^verbatim>\<open>write\<close> and \<^verbatim>\<open>end\<close> that follow it, which may reject the
  options with an exception (\<open>Some e\<close>) before anything is sent; and the text of a
  number, as \<^verbatim>\<open>JSON.stringify\<close> and a template literal write it.
\<close>

record node =
  JSON_parse :: "jstring \<Rightarrow> js_error + js"
  url_parse :: "jstring \<Rightarrow> js_error + jstring option"
  https_request :: "client_request \<Rightarrow> js_error option"
  number_text :: "number \<Rightarrow> jstring"

section \<open>The provider adapters (lines 58-180)\<close>

text \<open>
  An adapter builds the payload and the options and hands them to \<^verbatim>\<open>https.request\<close>.
  An exception thrown while the payload or the options are built leaves the adapter
  before \<^verbatim>\<open>https.request\<close> is called. The functions below are each adapter up to that
  call; the call itself and the callbacks follow in the relay.
\<close>

definition key_header :: "jstring option \<Rightarrow> header_value" where
  "key_header k = (case k of None \<Rightarrow> Unset | Some s \<Rightarrow> Text s)"

definition key_text :: "jstring option \<Rightarrow> jstring" where
  "key_text k = (case k of None \<Rightarrow> ascii ''undefined'' | Some s \<Rightarrow> s)"

text \<open>The options of lines 65-76, with the payload that line 96 writes.\<close>

definition anthropic_options :: "api_keys \<Rightarrow> jstring \<Rightarrow> client_request" where
  "anthropic_options keys postData =
     \<lparr>hostname = ''api.anthropic.com'',
      port = 443,
      path = ascii ''/v1/messages'',
      http_method = ''POST'',
      request_headers =
        [(''Content-Type'', Text (ascii ''application/json'')),
         (''x-api-key'', key_header (anthropic keys)),
         (''anthropic-version'', Text (ascii ''2023-06-01'')),
         (''Content-Length'', Count (byteLength postData))],
      written = postData\<rparr>"

definition proxyToAnthropic :: "node \<Rightarrow> api_keys \<Rightarrow> js \<Rightarrow> js_error + client_request" where
  "proxyToAnthropic n keys data =
     (case get_prop data ''model'' of Inl e \<Rightarrow> Inl e | Inr m \<Rightarrow>
     (case get_prop data ''max_tokens'' of Inl e \<Rightarrow> Inl e | Inr mt \<Rightarrow>
     (case get_prop data ''messages'' of Inl e \<Rightarrow> Inl e | Inr ms \<Rightarrow>
        Inr (anthropic_options keys
               (stringify (number_text n)
                  (Obj [(ascii ''model'', m),
                        (ascii ''max_tokens'', js_or mt (Num number_4096)),
                        (ascii ''messages'', ms)]))))))"

text \<open>The options of lines 106-116, with the payload that line 136 writes.\<close>

definition openai_options :: "api_keys \<Rightarrow> jstring \<Rightarrow> client_request" where
  "openai_options keys postData =
     \<lparr>hostname = ''api.openai.com'',
      port = 443,
      path = ascii ''/v1/chat/completions'',
      http_method = ''POST'',
      request_headers =
        [(''Content-Type'', Text (ascii ''application/json'')),
         (''Authorization'', Text (ascii ''Bearer '' @ key_text (openai keys))),
         (''Content-Length'', Count (byteLength postData))],
      written = postData\<rparr>"

definition proxyToOpenAI :: "node \<Rightarrow> api_keys \<Rightarrow> js \<Rightarrow> js_error + client_request" where
  "proxyToOpenAI n keys data =
     (case get_prop data ''model'' of Inl e \<Rightarrow> Inl e | Inr m \<Rightarrow>
     (case get_prop data ''messages'' of Inl e \<Rightarrow> Inl e | Inr ms \<Rightarrow>
        Inr (openai_options keys
               (stringify (number_text n)
                  (Obj [(ascii ''model'', m), (ascii ''messages'', ms)])))))"

text \<open>The object literal of lines 141-147, around the prompt.\<close>

definition google_payload :: "js \<Rightarrow> js" where
  "google_payload p =
     Obj [(ascii ''contents'', Arr [Obj [(ascii ''parts'', Arr [Obj [(ascii ''text'', p)]])]])]"

text \<open>The options of lines 149-158 for a model's text, with the payload that line 178 writes.\<close>

definition google_options :: "api_keys \<Rightarrow> jstring \<Rightarrow> jstring \<Rightarrow> client_request" where
  "google_options keys model postData =
     \<lparr>hostname = ''generativelanguage.googleapis.com'',
      port = 443,
      path = ascii ''/v1beta/models/'' @ model @ ascii '':generateContent?key=''
               @ key_text (google keys),
      http_method = ''POST'',
      request_headers =
        [(''Content-Type'', Text (ascii ''application/json'')),
         (''Content-Length'', Count (byteLength postData))],
      written = postData\<rparr>"

definition proxyToGoogle :: "node \<Rightarrow> api_keys \<Rightarrow> js \<Rightarrow> js_error + client_request" where
  "proxyToGoogle n keys data =
     (case get_prop data ''prompt'' of Inl e \<Rightarrow> Inl e | Inr p \<Rightarrow>
     (case get_prop data ''model'' of Inl e \<Rightarrow> Inl e | Inr m \<Rightarrow>
     (case to_string (number_text n) m of Inl e \<Rightarrow> Inl e | Inr model \<Rightarrow>
        Inr (google_options keys model (stringify (number_text n) (google_payload p))))))"

text \<open>
  What happens to the outbound request: the upstream response arrives in chunks and
  ends (\<^verbatim>\<open>proxyRes\<close> emits \<^verbatim>\<open>data\<close>, then \<^verbatim>\<open>end\<close>); or the request fails (\<^verbatim>\<open>proxyReq\<close> emits
  \<^verbatim>\<open>error\<close>, with the chunks that arrived before and the error's message); or the
  upstream's head and some chunks arrive and then the connection closes (\<^verbatim>\<open>proxyRes\<close>
  never emits \<^verbatim>\<open>end\<close> and \<^verbatim>\<open>proxyReq\<close> emits no \<^verbatim>\<open>error\<close>; what \<^verbatim>\<open>proxyRes\<close> emits instead
  has no listener); or no event ever comes (no timeout is set).
\<close>

datatype upstream =
    Ended nat "string list"
  | Failed "string list" jstring
  | Aborted nat "string list"
  | Hung

datatype provider = Anthropic | OpenAI | Google

text \<open>
  The callbacks each adapter registers (lines 78-94, 118-134, 160-176): the same text
  three times.
\<close>

fun callbacks :: "node \<Rightarrow> provider \<Rightarrow> upstream \<Rightarrow> res_call list" where
  "callbacks n Anthropic (Ended st bs) =
     [WriteHead st [(''Content-Type'', ''application/json'')],
      End (concat (map buffer_toString bs))]"
| "callbacks n Anthropic (Failed bs message) =
     [WriteHead 500 [(''Content-Type'', ''application/json'')],
      End (stringify (number_text n) (Obj [(ascii ''error'', Str message)]))]"
| "callbacks n Anthropic (Aborted st bs) = []"
| "callbacks n Anthropic Hung = []"
| "callbacks n OpenAI (Ended st bs) =
     [WriteHead st [(''Content-Type'', ''application/json'')],
      End (concat (map buffer_toString bs))]"
| "callbacks n OpenAI (Failed bs message) =
     [WriteHead 500 [(''Content-Type'', ''application/json'')],
      End (stringify (number_text n) (Obj [(ascii ''error'', Str message)]))]"
| "callbacks n OpenAI (Aborted st bs) = []"
| "callbacks n OpenAI Hung = []"
| "callbacks n Google (Ended st bs) =
     [WriteHead st [(''Content-Type'', ''application/json'')],
      End (concat (map buffer_toString bs))]"
| "callbacks n Google (Failed bs message) =
     [WriteHead 500 [(''Content-Type'', ''application/json'')],
      End (stringify (number_text n) (Obj [(ascii ''error'', Str message)]))]"
| "callbacks n Google (Aborted st bs) = []"
| "callbacks n Google Hung = []"

section \<open>The relay (lines 11-56)\<close>

text \<open>
  \<^verbatim>\<open>url.parse(req.url, true).pathname\<close> (lines 29-30). For a request target in origin
  form, made of printable ASCII without \<^verbatim>\<open>#\<close>, \<^verbatim>\<open>@\<close> or a backslash, one slash first,
  Node's \<^verbatim>\<open>url.parse\<close> takes the pathname to be the text before the first \<^verbatim>\<open>?\<close>. On any
  other target it is the function \<open>url_parse\<close>, which the model leaves open: it yields
  a pathname or \<^verbatim>\<open>null\<close>, or throws.
\<close>

definition plain_unit :: "16 word \<Rightarrow> bool" where
  "plain_unit u \<longleftrightarrow>
     33 \<le> unat u \<and> unat u \<le> 126 \<and> unat u \<noteq> 0x23 \<and> unat u \<noteq> 0x40 \<and> unat u \<noteq> 0x5C"

fun plain_target :: "jstring \<Rightarrow> bool" where
  "plain_target [] = False"
| "plain_target [u] = (u = 0x2F)"
| "plain_target (u # v # us) = (u = 0x2F \<and> v \<noteq> 0x2F \<and> list_all plain_unit (v # us))"

definition pathname_of :: "node \<Rightarrow> jstring \<Rightarrow> js_error + jstring option" where
  "pathname_of n u =
     (if plain_target u then Inr (Some (takeWhile (\<lambda>c. c \<noteq> 0x3F) u)) else url_parse n u)"

record request =
  req_method :: string
  url :: jstring
  chunks :: "string list"

text \<open>
  What one request leads to: the calls made on \<^verbatim>\<open>res\<close>, the adapter that was called,
  and the request that \<^verbatim>\<open>https.request\<close> accepted.
\<close>

record handled =
  calls :: "res_call list"
  invoked :: "provider option"
  issued :: "client_request option"

definition cors :: "res_call list" where
  "cors =
     [SetHeader ''Access-Control-Allow-Origin'' ''*'',
      SetHeader ''Access-Control-Allow-Methods'' ''POST, OPTIONS'',
      SetHeader ''Access-Control-Allow-Headers'' ''Content-Type'']"

definition reply :: "node \<Rightarrow> nat \<Rightarrow> string \<Rightarrow> res_call list" where
  "reply n st message =
     [WriteHead st [(''Content-Type'', ''application/json'')],
      End (stringify (number_text n) (Obj [(ascii ''error'', Str (ascii message))]))]"

text \<open>
  The \<^verbatim>\<open>end\<close> listener (lines 37-55). The \<^verbatim>\<open>try\<close> block holds the parse and the call
  of the adapter, so the \<^verbatim>\<open>catch\<close> answers 400 for an exception of the parse, of the
  adapter's property reads and string conversions, and of \<^verbatim>\<open>https.request\<close>.
\<close>

definition dispatch ::
  "node \<Rightarrow> res_call list \<Rightarrow> provider \<Rightarrow> js_error + client_request \<Rightarrow> handled" where
  "dispatch n res p r =
     (case r of
        Inl e \<Rightarrow> \<lparr>calls = res @ reply n 400 ''Invalid JSON'', invoked = Some p, issued = None\<rparr>
      | Inr cr \<Rightarrow>
          (case https_request n cr of
             Some e \<Rightarrow> \<lparr>calls = res @ reply n 400 ''Invalid JSON'', invoked = Some p, issued = None\<rparr>
           | None \<Rightarrow> \<lparr>calls = res, invoked = Some p, issued = Some cr\<rparr>))"

definition on_end ::
  "node \<Rightarrow> api_keys \<Rightarrow> res_call list \<Rightarrow> jstring option \<Rightarrow> jstring \<Rightarrow> handled" where
  "on_end n keys res pathname buffered =
     (case JSON_parse n buffered of
        Inl e \<Rightarrow> \<lparr>calls = res @ reply n 400 ''Invalid JSON'', invoked = None, issued = None\<rparr>
      | Inr data \<Rightarrow>
          if pathname = Some (ascii ''/anthropic'')
          then dispatch n res Anthropic (proxyToAnthropic n keys data)
          else if pathname = Some (ascii ''/openai'')
          then dispatch n res OpenAI (proxyToOpenAI n keys data)
          else if pathname = Some (ascii ''/google'')
          then dispatch n res Google (proxyToGoogle n keys data)
          else \<lparr>calls = res @ reply n 404 ''Not found'', invoked = None, issued = None\<rparr>)"

text \<open>
  The request listener (lines 11-56). An exception of \<^verbatim>\<open>url.parse\<close> is outside the
  \<^verbatim>\<open>try\<close> block and leaves the listener: \<open>Inl\<close>, with no response, and the process ends
  on the uncaught exception.
\<close>

definition server :: "node \<Rightarrow> api_keys \<Rightarrow> request \<Rightarrow> js_error + handled" where
  "server n keys req =
     (if req_method req = ''OPTIONS''
      then Inr \<lparr>calls = cors @ [WriteHead 200 [], End []], invoked = None, issued = None\<rparr>
      else if req_method req \<noteq> ''POST''
      then Inr \<lparr>calls = cors @ reply n 405 ''Method not allowed'', invoked = None, issued = None\<rparr>
      else
        (case pathname_of n (url req) of
           Inl e \<Rightarrow> Inl e
         | Inr pathname \<Rightarrow>
             Inr (on_end n keys cors pathname (concat (map buffer_toString (chunks req))))))"

text \<open>The whole exchange: the listener, then the callbacks of the adapter that issued a request.\<close>

definition exchange :: "node \<Rightarrow> api_keys \<Rightarrow> request \<Rightarrow> upstream \<Rightarrow> js_error + handled" where
  "exchange n keys req up =
     (case server n keys req of
        Inl e \<Rightarrow> Inl e
      | Inr h \<Rightarrow>
          (case (invoked h, issued h) of
             (Some p, Some cr) \<Rightarrow> Inr (h\<lparr>calls := calls h @ callbacks n p up\<rparr>)
           | _ \<Rightarrow> Inr h))"

section \<open>Examples\<close>

text \<open>
  The value of \<^verbatim>\<open>JSON.parse\<close> on a few bodies and the text of a few numbers, for the
  examples below; every other text is left malformed here, and every other number
  without digits. \<open>sample_node\<close> has this parser, a \<^verbatim>\<open>url.parse\<close> that throws on the
  target \<^verbatim>\<open>http://[/\<close> and finds no pathname otherwise, and an \<^verbatim>\<open>https.request\<close> that
  accepts every request.
\<close>

definition gpt4_body :: string where
  \<open>gpt4_body = ''{"model":"gpt-4","messages":[{"role":"user","content":"hi"}]}''\<close>

definition gpt4_data :: js where
  "gpt4_data =
     Obj [(ascii ''model'', Str (ascii ''gpt-4'')),
          (ascii ''messages'',
             Arr [Obj [(ascii ''role'', Str (ascii ''user'')), (ascii ''content'', Str (ascii ''hi''))]])]"

definition zero_body :: string where
  \<open>zero_body = ''{"model":"m","max_tokens":0,"messages":[]}''\<close>

definition zero_data :: js where
  "zero_data =
     Obj [(ascii ''model'', Str (ascii ''m'')), (ascii ''max_tokens'', Num 0),
          (ascii ''messages'', Arr [])]"

definition large_body :: string where
  \<open>large_body = ''{"model":"m","max_tokens":1e21,"messages":[1.5]}''\<close>

definition large_data :: js where
  "large_data =
     Obj [(ascii ''model'', Str (ascii ''m'')), (ascii ''max_tokens'', Num 0x444B1AE4D6E2EF50),
          (ascii ''messages'', Arr [Num 0x3FF8000000000000])]"

definition gemini_body :: string where
  \<open>gemini_body = ''{"model":"gemini-pro","prompt":"hi","messages":[]}''\<close>

definition gemini_data :: js where
  "gemini_data =
     Obj [(ascii ''model'', Str (ascii ''gemini-pro'')), (ascii ''prompt'', Str (ascii ''hi'')),
          (ascii ''messages'', Arr [])]"

definition JSON_parse_sample :: "jstring \<Rightarrow> js_error + js" where
  "JSON_parse_sample txt =
     (if txt = ascii ''null'' then Inr Null
      else if txt = ascii ''{}'' then Inr (Obj [])
      else if txt = ascii gpt4_body then Inr gpt4_data
      else if txt = ascii zero_body then Inr zero_data
      else if txt = ascii large_body then Inr large_data
      else if txt = ascii gemini_body then Inr gemini_data
      else Inl (SyntaxError ''Unexpected token''))"

definition number_text_sample :: "number \<Rightarrow> jstring" where
  "number_text_sample x =
     (if x = 0 then ascii ''0''
      else if x = number_4096 then ascii ''4096''
      else if x = 0x444B1AE4D6E2EF50 then ascii ''1e+21''
      else if x = 0x3FF8000000000000 then ascii ''1.5''
      else [])"

definition url_parse_sample :: "jstring \<Rightarrow> js_error + jstring option" where
  "url_parse_sample u =
     (if u = ascii ''http://[/'' then Inl (TypeError ''Invalid URL'') else Inr None)"

definition sample_node :: node where
  "sample_node =
     \<lparr>JSON_parse = JSON_parse_sample, url_parse = url_parse_sample,
      https_request = (\<lambda>cr. None), number_text = number_text_sample\<rparr>"

definition sample_keys :: api_keys where
  "sample_keys =
     \<lparr>anthropic = Some (ascii ''sk-ant''), openai = Some (ascii ''sk-oa''),
      google = Some (ascii ''g-key'')\<rparr>"

definition post :: "string \<Rightarrow> string list \<Rightarrow> request" where
  "post target bs = \<lparr>req_method = ''POST'', url = ascii target, chunks = bs\<rparr>"

definition unknown_request :: request where
  "unknown_request = post ''/unknown?a=b'' [''{}'']"

definition gpt4_request :: request where
  "gpt4_request = post ''/openai'' [gpt4_body]"

definition gpt4_outbound :: client_request where
  "gpt4_outbound =
     \<lparr>hostname = ''api.openai.com'', port = 443, path = ascii ''/v1/chat/completions'',
      http_method = ''POST'',
      request_headers = [(''Content-Type'', Text (ascii ''application/json'')),
                         (''Authorization'', Text (ascii ''Bearer sk-oa'')),
                         (''Content-Length'', Count 61)],
      written = ascii gpt4_body\<rparr>"

text \<open>
  An upstream body whose two-byte character (C3 A9, the letter e with an acute accent)
  is cut between two chunks.
\<close>

definition split_body :: "string list" where
  \<open>split_body = [''{"t":"'' @ [CHR 0xC3], [CHR 0xA9] @ ''"}'']\<close>

section \<open>The process does not start\<close>

lemma start_needs_getenv:
  assumes "start h = Inr keys"
  shows "\<exists>obj f. os_global h = Some obj \<and> obj ''getenv'' = Some f
           \<and> keys = \<lparr>anthropic = f ''ANTHROPIC_API_KEY'', openai = f ''OPENAI_API_KEY'',
                      google = f ''GOOGLE_API_KEY''\<rparr>"
  using assms
  by (auto simp: start_def os_getenv_def split: option.splits sum.splits)

lemma start_without_getenv:
  assumes "os_global h = Some obj" and "obj ''getenv'' = None"
  shows "start h = Inl (TypeError ''os.getenv is not a function'')"
  using assms by (simp add: start_def os_getenv_def)

text \<open>
  C1. The claim: the three credentials are read once from the environment at start,
  and the process starts without an error also when a variable is unset. The code:
  on a host that defines no global \<^verbatim>\<open>os\<close>, whatever the environment holds, evaluating
  line 6 throws a ReferenceError, so \<^verbatim>\<open>API_KEYS\<close> is never built and the server never
  listens.
\<close>

theorem start_throws:
  "start \<lparr>os_global = None, environment = env\<rparr> = Inl (ReferenceError ''os is not defined'')"
  by (simp add: start_def os_getenv_def)

section \<open>Lemmas on strings\<close>

lemma of_char_unit [simp]: "(of_char c :: nat) < 65536"
  by (rule less_trans [of _ 256]) simp_all

lemma unat_ascii_unit: "unat (of_nat (of_char c) :: 16 word) = of_char c"
  by (simp add: unat_of_nat)

lemma ascii_eq_iff [simp]: "ascii a = ascii b \<longleftrightarrow> a = b"
proof
  assume "ascii a = ascii b"
  then have "map (\<lambda>u. unat (u :: 16 word)) (ascii a) = map unat (ascii b)" by simp
  then have "map (of_char :: char \<Rightarrow> nat) a = map of_char b"
    by (simp add: ascii_def unat_ascii_unit comp_def)
  then show "a = b"
    by (simp add: inj_def)
qed simp

lemma ascii_append: "ascii (a @ b) = ascii a @ ascii b"
  by (simp add: ascii_def)

lemma ascii_Nil [simp]: "ascii [] = []"
  by (simp add: ascii_def)

lemma decode_points_ascii:
  "list_all (\<lambda>c. (of_char c :: nat) < 0x80) cs \<Longrightarrow> decode_points None cs = map of_char cs"
  by (induction cs) (simp_all add: classify_def)

lemma buffer_toString_ascii:
  assumes "list_all (\<lambda>c. (of_char c :: nat) < 0x80) cs"
  shows "buffer_toString cs = ascii cs"
proof -
  have "concat (map utf16 (map of_char cs)) = ascii cs"
    by (induction cs) (simp_all add: utf16_def ascii_def)
  then show ?thesis
    using assms by (simp add: buffer_toString_def decode_points_ascii)
qed

lemma code_points_ascii: "code_points (ascii s) = map of_char s"
  if "list_all (\<lambda>c. (of_char c :: nat) < 0x80) s"
  using that
proof (induction s rule: induct_list012)
  case 1
  then show ?case by simp
next
  case (2 c)
  then show ?case
    by (simp add: ascii_def high_surrogate_def low_surrogate_def unat_ascii_unit)
next
  case (3 c d cs)
  then show ?case
    by (simp add: ascii_def high_surrogate_def low_surrogate_def unat_ascii_unit)
qed

lemma utf8_encode_ascii:
  assumes "list_all (\<lambda>c. (of_char c :: nat) < 0x80) s"
  shows "utf8_encode (ascii s) = s"
proof -
  have "concat (map utf8_bytes (map of_char s)) = s"
    using assms by (induction s) (simp_all add: utf8_bytes_def)
  then show ?thesis
    using assms by (simp add: utf8_encode_def code_points_ascii)
qed

section \<open>Lemmas on the decoder\<close>

lemma decode_points_sequence:
  assumes "lo \<le> of_char d" and "(of_char d :: nat) \<le> hi"
    and "n - 1 \<le> length ds"
    and "list_all (\<lambda>e. 0x80 \<le> (of_char e :: nat) \<and> (of_char e :: nat) \<le> 0xBF) (take (n - 1) ds)"
  shows "decode_points (Some (n, lo, hi, point)) (d # ds) =
           foldl (\<lambda>p e. p * 64 + (of_char e - 0x80)) point (d # take (n - 1) ds)
             # decode_points None (drop (n - 1) ds)"
  using assms
proof (induction n arbitrary: lo hi point d ds)
  case 0
  then show ?case by simp
next
  case (Suc k)
  show ?case
  proof (cases k)
    case 0
    with Suc.prems show ?thesis by simp
  next
    case (Suc j)
    with Suc.prems obtain e es where ds: "ds = e # es"
      by (cases ds) auto
    from Suc.prems Suc ds have e: "0x80 \<le> (of_char e :: nat)" "(of_char e :: nat) \<le> 0xBF"
      and es: "k - 1 \<le> length es"
        "list_all (\<lambda>e. 0x80 \<le> (of_char e :: nat) \<and> (of_char e :: nat) \<le> 0xBF) (take (k - 1) es)"
      by simp_all
    have "decode_points (Some (Suc k, lo, hi, point)) (d # ds) =
        decode_points (Some (k, 0x80, 0xBF, point * 64 + (of_char d - 0x80))) (e # es)"
      using Suc.prems(1,2) Suc ds by simp
    also have "\<dots> =
        foldl (\<lambda>p e. p * 64 + (of_char e - 0x80)) (point * 64 + (of_char d - 0x80))
          (e # take (k - 1) es) # decode_points None (drop (k - 1) es)"
      by (rule Suc.IH [OF e es])
    finally show ?thesis
      using Suc ds by simp
  qed
qed

lemma decode_points_append:
  "well_formed a \<Longrightarrow> decode_points None (a @ b) = decode_points None a @ decode_points None b"
proof (induction a rule: well_formed.induct)
  case 1
  then show ?case by simp
next
  case (2 c cs)
  show ?case
  proof (cases "classify c")
    case Ascii
    with 2 show ?thesis by simp
  next
    case (Lead n lo hi point)
    with "2.prems" obtain d ds where cs: "cs = d # ds"
      by (cases cs) auto
    from "2.prems" Lead cs have p: "lo \<le> of_char d" "(of_char d :: nat) \<le> hi"
      "n - 1 \<le> length ds"
      "list_all (\<lambda>e. 0x80 \<le> (of_char e :: nat) \<and> (of_char e :: nat) \<le> 0xBF) (take (n - 1) ds)"
      and w: "well_formed (drop (n - 1) ds)"
      by simp_all
    from p have q: "n - 1 \<le> length (ds @ b)"
      "list_all (\<lambda>e. 0x80 \<le> (of_char e :: nat) \<and> (of_char e :: nat) \<le> 0xBF)
         (take (n - 1) (ds @ b))"
      by simp_all
    have i: "decode_points None (drop (n - 1) ds @ b) =
        decode_points None (drop (n - 1) ds) @ decode_points None b"
      using "2.IH"(2) Lead cs w by simp
    show ?thesis
      using Lead cs p(3) i
        decode_points_sequence [OF p, of point]
        decode_points_sequence [OF p(1,2) q, of point]
      by simp
  next
    case Bad
    with "2.prems" show ?thesis by simp
  qed
qed

lemma buffer_toString_append:
  "well_formed a \<Longrightarrow> buffer_toString (a @ b) = buffer_toString a @ buffer_toString b"
  by (simp add: buffer_toString_def decode_points_append)

text \<open>
  When no chunk boundary cuts a character, decoding chunk by chunk gives the text of
  the whole body.
\<close>

lemma buffered_whole:
  "list_all well_formed bs \<Longrightarrow> concat (map buffer_toString bs) = buffer_toString (concat bs)"
  by (induction bs) (simp_all add: buffer_toString_append, simp add: buffer_toString_def)

subsection \<open>Encoding what was decoded\<close>

lemma split64:
  fixes a r :: nat
  assumes "r < 64"
  shows "(a * 64 + r) div 64 = a" and "(a * 64 + r) mod 64 = r"
  using assms by simp_all

lemma two_units:
  fixes a r :: nat
  assumes "2 \<le> a" "a < 32" "r < 64"
  shows "0x80 \<le> a * 64 + r" and "a * 64 + r < 0x800"
    and "(a * 64 + r) div 64 = a" and "(a * 64 + r) mod 64 = r"
  using assms by simp_all

lemma three_units:
  fixes a r s :: nat
  assumes "a < 16" "r < 64" "s < 64" "a = 0 \<longrightarrow> 32 \<le> r" "a = 13 \<longrightarrow> r < 32"
  shows "0x800 \<le> (a * 64 + r) * 64 + s" and "(a * 64 + r) * 64 + s < 0x10000"
    and "\<not> (0xD800 \<le> (a * 64 + r) * 64 + s \<and> (a * 64 + r) * 64 + s < 0xE000)"
    and "((a * 64 + r) * 64 + s) div 4096 = a"
    and "((a * 64 + r) * 64 + s) div 64 mod 64 = r"
    and "((a * 64 + r) * 64 + s) mod 64 = s"
proof -
  show "0x800 \<le> (a * 64 + r) * 64 + s"
    using assms by (cases "a = 0") simp_all
  show "(a * 64 + r) * 64 + s < 0x10000"
    using assms(1,2,3) by simp
  show "\<not> (0xD800 \<le> (a * 64 + r) * 64 + s \<and> (a * 64 + r) * 64 + s < 0xE000)"
  proof -
    consider "a < 13" | "a = 13" | "13 < a" by linarith
    then show ?thesis
      using assms by cases simp_all
  qed
  have 1: "((a * 64 + r) * 64 + s) div 64 = a * 64 + r"
    using assms(3) by (rule split64)
  have "((a * 64 + r) * 64 + s) div 4096 = ((a * 64 + r) * 64 + s) div 64 div 64"
    by (simp add: div_mult2_eq [symmetric])
  then show "((a * 64 + r) * 64 + s) div 4096 = a"
    using assms(2) by (simp only: 1 split64)
  show "((a * 64 + r) * 64 + s) div 64 mod 64 = r"
    using assms(2) by (simp only: 1 split64)
  show "((a * 64 + r) * 64 + s) mod 64 = s"
    using assms(3) by (rule split64)
qed

lemma four_units:
  fixes a r s t :: nat
  assumes "a < 5" "r < 64" "s < 64" "t < 64" "a = 0 \<longrightarrow> 16 \<le> r" "a = 4 \<longrightarrow> r < 16"
  shows "0x10000 \<le> ((a * 64 + r) * 64 + s) * 64 + t"
    and "((a * 64 + r) * 64 + s) * 64 + t < 0x110000"
    and "(((a * 64 + r) * 64 + s) * 64 + t) div 262144 = a"
    and "(((a * 64 + r) * 64 + s) * 64 + t) div 4096 mod 64 = r"
    and "(((a * 64 + r) * 64 + s) * 64 + t) div 64 mod 64 = s"
    and "(((a * 64 + r) * 64 + s) * 64 + t) mod 64 = t"
proof -
  show "0x10000 \<le> ((a * 64 + r) * 64 + s) * 64 + t"
    using assms by (cases "a = 0") simp_all
  show "((a * 64 + r) * 64 + s) * 64 + t < 0x110000"
    using assms by (cases "a = 4") simp_all
  have 1: "(((a * 64 + r) * 64 + s) * 64 + t) div 64 = (a * 64 + r) * 64 + s"
    using assms(4) by (rule split64)
  have 2: "((a * 64 + r) * 64 + s) div 64 = a * 64 + r"
    using assms(3) by (rule split64)
  have 3: "(((a * 64 + r) * 64 + s) * 64 + t) div 4096 = a * 64 + r"
  proof -
    have "(((a * 64 + r) * 64 + s) * 64 + t) div 4096 =
        (((a * 64 + r) * 64 + s) * 64 + t) div 64 div 64"
      by (simp add: div_mult2_eq [symmetric])
    then show ?thesis by (simp only: 1 2)
  qed
  have "(((a * 64 + r) * 64 + s) * 64 + t) div 262144 =
      (((a * 64 + r) * 64 + s) * 64 + t) div 4096 div 64"
    by (simp add: div_mult2_eq [symmetric])
  then show "(((a * 64 + r) * 64 + s) * 64 + t) div 262144 = a"
    using assms(2) by (simp only: 3 split64)
  show "(((a * 64 + r) * 64 + s) * 64 + t) div 4096 mod 64 = r"
    using assms(2) by (simp only: 3 split64)
  show "(((a * 64 + r) * 64 + s) * 64 + t) div 64 mod 64 = s"
    using assms(3) by (simp only: 1 split64)
  show "(((a * 64 + r) * 64 + s) * 64 + t) mod 64 = t"
    using assms(4) by (rule split64)
qed


lemma classify_Lead:
  assumes "classify c = Lead n lo hi point"
  shows "(n = 1 \<and> lo = 0x80 \<and> hi = 0xBF \<and> 2 \<le> point \<and> point < 32
            \<and> (of_char c :: nat) = 0xC0 + point)
       \<or> (n = 2 \<and> 0x80 \<le> lo \<and> hi \<le> 0xBF \<and> point < 16 \<and> (of_char c :: nat) = 0xE0 + point
            \<and> (point = 0 \<longrightarrow> lo = 0xA0) \<and> (point = 13 \<longrightarrow> hi = 0x9F))
       \<or> (n = 3 \<and> 0x80 \<le> lo \<and> hi \<le> 0xBF \<and> point < 5 \<and> (of_char c :: nat) = 0xF0 + point
            \<and> (point = 0 \<longrightarrow> lo = 0x90) \<and> (point = 4 \<longrightarrow> hi = 0x8F))"
  using assms by (auto simp: classify_def Let_def split: if_splits)

lemma continuation_offset:
  assumes "0x80 \<le> (of_char d :: nat)" and "(of_char d :: nat) \<le> 0xBF"
  obtains r :: nat where "r < 64" and "(of_char d :: nat) = 0x80 + r" and "of_char d - 0x80 = r"
    and "char_of (0x80 + r) = d"
proof
  show "(of_char d :: nat) - 0x80 < 64" using assms by simp
  show a: "(of_char d :: nat) = 0x80 + (of_char d - 0x80)" using assms by simp
  show "(of_char d :: nat) - 0x80 = of_char d - 0x80" ..
  show "char_of (0x80 + ((of_char d :: nat) - 0x80)) = d"
    by (simp add: a [symmetric])
qed

lemma sequence_bytes:
  assumes c: "classify c = Lead n lo hi point"
    and d: "lo \<le> of_char d" "(of_char d :: nat) \<le> hi"
    and es: "length es = n - 1"
      "list_all (\<lambda>e. 0x80 \<le> (of_char e :: nat) \<and> (of_char e :: nat) \<le> 0xBF) es"
  shows "scalar (foldl (\<lambda>p e. p * 64 + (of_char e - 0x80)) point (d # es))
       \<and> utf8_bytes (foldl (\<lambda>p e. p * 64 + (of_char e - 0x80)) point (d # es)) = c # d # es"
  using classify_Lead [OF c]
proof (elim disjE conjE)
  assume a: "n = 1" "lo = 0x80" "hi = 0xBF" "2 \<le> point" "point < 32"
    "(of_char c :: nat) = 0xC0 + point"
  from d a obtain r :: nat where r: "r < 64" "of_char d - 0x80 = r" "char_of (0x80 + r) = d"
    by (auto elim: continuation_offset)
  have lead: "char_of (0xC0 + point) = c"
    by (simp add: a(6) [symmetric])
  from es a have "es = []" by simp
  then show ?thesis
    using two_units [OF a(4,5) r(1)] r(2,3) lead
    by (simp add: scalar_def utf8_bytes_def)
next
  assume a: "n = 2" "0x80 \<le> lo" "hi \<le> 0xBF" "point < 16" "(of_char c :: nat) = 0xE0 + point"
    "point = 0 \<longrightarrow> lo = 0xA0" "point = 13 \<longrightarrow> hi = 0x9F"
  from es a obtain e where e: "es = [e]" "0x80 \<le> (of_char e :: nat)" "(of_char e :: nat) \<le> 0xBF"
    by (cases es) auto
  from d a have "0x80 \<le> (of_char d :: nat)" "(of_char d :: nat) \<le> 0xBF" by simp_all
  then obtain r :: nat where r: "r < 64" "(of_char d :: nat) = 0x80 + r" "of_char d - 0x80 = r"
    "char_of (0x80 + r) = d"
    by (rule continuation_offset)
  from e obtain s :: nat where s: "s < 64" "of_char e - 0x80 = s" "char_of (0x80 + s) = e"
    by (auto elim: continuation_offset)
  have lead: "char_of (0xE0 + point) = c"
    by (simp add: a(5) [symmetric])
  have "point = 0 \<longrightarrow> 32 \<le> r" and "point = 13 \<longrightarrow> r < 32"
    using d a(6,7) r(2) by auto
  note u = three_units [OF a(4) r(1) s(1) this]
  have "\<not> (point * 64 + r) * 64 + s < 0x80" and "\<not> (point * 64 + r) * 64 + s < 0x800"
    using u(1) by simp_all
  then show ?thesis
    using u r(3,4) s(2,3) lead e(1)
    by (simp add: scalar_def utf8_bytes_def)
next
  assume a: "n = 3" "0x80 \<le> lo" "hi \<le> 0xBF" "point < 5" "(of_char c :: nat) = 0xF0 + point"
    "point = 0 \<longrightarrow> lo = 0x90" "point = 4 \<longrightarrow> hi = 0x8F"
  from es a obtain e f where e: "es = [e, f]"
    "0x80 \<le> (of_char e :: nat)" "(of_char e :: nat) \<le> 0xBF"
    "0x80 \<le> (of_char f :: nat)" "(of_char f :: nat) \<le> 0xBF"
    by (cases es; cases "tl es") auto
  from d a have "0x80 \<le> (of_char d :: nat)" "(of_char d :: nat) \<le> 0xBF" by simp_all
  then obtain r :: nat where r: "r < 64" "(of_char d :: nat) = 0x80 + r" "of_char d - 0x80 = r"
    "char_of (0x80 + r) = d"
    by (rule continuation_offset)
  from e obtain s :: nat where s: "s < 64" "of_char e - 0x80 = s" "char_of (0x80 + s) = e"
    by (auto elim: continuation_offset)
  from e obtain t :: nat where t: "t < 64" "of_char f - 0x80 = t" "char_of (0x80 + t) = f"
    by (auto elim: continuation_offset)
  have lead: "char_of (0xF0 + point) = c"
    by (simp add: a(5) [symmetric])
  have "point = 0 \<longrightarrow> 16 \<le> r" and "point = 4 \<longrightarrow> r < 16"
    using d a(6,7) r(2) by auto
  note u = four_units [OF a(4) r(1) s(1) t(1) this]
  have "\<not> ((point * 64 + r) * 64 + s) * 64 + t < 0x80"
    and "\<not> ((point * 64 + r) * 64 + s) * 64 + t < 0x800"
    and "\<not> ((point * 64 + r) * 64 + s) * 64 + t < 0x10000"
    and "\<not> ((point * 64 + r) * 64 + s) * 64 + t < 0xE000"
    using u(1) by simp_all
  then show ?thesis
    using u r(3,4) s(2,3) t(2,3) lead e(1)
    by (simp add: scalar_def utf8_bytes_def)
qed

lemma decode_points_well_formed:
  "well_formed cs \<Longrightarrow>
     list_all scalar (decode_points None cs)
     \<and> concat (map utf8_bytes (decode_points None cs)) = cs"
proof (induction cs rule: well_formed.induct)
  case 1
  then show ?case by simp
next
  case (2 c cs)
  show ?case
  proof (cases "classify c")
    case Ascii
    then have "(of_char c :: nat) < 0x80"
      by (simp add: classify_def Let_def split: if_splits)
    with 2 Ascii show ?thesis
      by (simp add: scalar_def utf8_bytes_def)
  next
    case (Lead n lo hi point)
    with "2.prems" obtain d ds where cs: "cs = d # ds"
      by (cases cs) auto
    from "2.prems" Lead cs have p: "lo \<le> of_char d" "(of_char d :: nat) \<le> hi"
      "n - 1 \<le> length ds"
      "list_all (\<lambda>e. 0x80 \<le> (of_char e :: nat) \<and> (of_char e :: nat) \<le> 0xBF) (take (n - 1) ds)"
      and w: "well_formed (drop (n - 1) ds)"
      by simp_all
    have i: "list_all scalar (decode_points None (drop (n - 1) ds))
        \<and> concat (map utf8_bytes (decode_points None (drop (n - 1) ds))) = drop (n - 1) ds"
      using "2.IH"(2) Lead cs w by simp
    have l: "length (take (n - 1) ds) = n - 1"
      using p(3) by simp
    show ?thesis
      using Lead cs i decode_points_sequence [OF p, of point]
        sequence_bytes [OF Lead p(1,2) l p(4)]
      by simp
  next
    case Bad
    with "2.prems" show ?thesis by simp
  qed
qed

lemma code_points_unit:
  assumes "\<not> high_surrogate u" and "\<not> low_surrogate u"
  shows "code_points (u # us) = unat u # code_points us"
  using assms by (cases us) simp_all

lemma code_points_utf16:
  assumes "scalar p"
  shows "code_points (utf16 p @ us) = p # code_points us"
proof (cases "p < 0x10000")
  case True
  then have u: "unat (of_nat p :: 16 word) = p"
    by (simp add: unat_of_nat)
  with assms have "\<not> high_surrogate (of_nat p :: 16 word)" "\<not> low_surrogate (of_nat p :: 16 word)"
    by (auto simp: scalar_def high_surrogate_def low_surrogate_def)
  then show ?thesis
    using True u by (simp add: utf16_def code_points_unit)
next
  case False
  define q where "q = (p - 0x10000) div 0x400"
  define m where "m = (p - 0x10000) mod 0x400"
  from assms False have q: "q < 0x400"
    by (simp add: q_def scalar_def)
  have m: "m < 0x400"
    by (simp add: m_def)
  have p: "p = 0x10000 + q * 0x400 + m"
    using False by (simp add: q_def m_def)
  have h: "unat (of_nat (0xD800 + q) :: 16 word) = 0xD800 + q"
    using q by (simp only: unat_of_nat) simp
  have l: "unat (of_nat (0xDC00 + m) :: 16 word) = 0xDC00 + m"
    using m by (simp only: unat_of_nat) simp
  have "high_surrogate (of_nat (0xD800 + q) :: 16 word)"
    and "low_surrogate (of_nat (0xDC00 + m) :: 16 word)"
    using q m by (simp_all only: high_surrogate_def low_surrogate_def h l) simp_all
  then have "code_points (of_nat (0xD800 + q) # of_nat (0xDC00 + m) # us) = p # code_points us"
    by (simp only: code_points.simps h l p if_True simp_thms) simp
  then show ?thesis
    using False by (simp add: utf16_def q_def m_def)
qed

lemma code_points_decoded:
  "list_all scalar ps \<Longrightarrow> code_points (concat (map utf16 ps)) = ps"
proof (induction ps)
  case Nil
  then show ?case by simp
next
  case (Cons p ps)
  then show ?case
    using code_points_utf16 [of p "concat (map utf16 ps)"] by simp
qed

text \<open>
  A body whose chunks are each well-formed UTF-8 reaches the other side unchanged.
\<close>

lemma utf8_encode_decoded:
  assumes "list_all well_formed bs"
  shows "utf8_encode (concat (map buffer_toString bs)) = concat bs"
proof -
  have "concat (map buffer_toString bs) = concat (map utf16 (concat (map (decode_points None) bs)))"
    by (induction bs) (simp_all add: buffer_toString_def)
  moreover have "list_all scalar (concat (map (decode_points None) bs))
      \<and> concat (map utf8_bytes (concat (map (decode_points None) bs))) = concat bs"
    using assms by (induction bs) (simp_all add: decode_points_well_formed)
  ultimately show ?thesis
    by (simp add: utf8_encode_def code_points_decoded)
qed

section \<open>Lemmas on values, the response channel and the listener\<close>

lemmas eval_json =
  ascii_def json_quote_def json_escape_def unicode_escape_def digit_def high_surrogate_def
  low_surrogate_def

lemmas eval_utf8 = utf8_encode_def utf8_bytes_def char_of_eq_iff

lemma get_prop_defined:
  assumes "data \<noteq> Null" and "data \<noteq> Undefined"
  shows "get_prop data k = Inr (field data k)"
  using assms by (cases data) (simp_all add: field_def)

lemma field_Obj: "field (Obj kvs) k = own kvs (ascii k)"
  by (simp add: field_def)

lemma res_run_cors:
  "res_run cors fresh = Inr \<lparr>headers = cors_fields, statusCode = None, finished = None\<rparr>"
  by (simp add: cors_def fresh_def cors_fields_def lower_def)

lemma res_run_append:
  "res_run (xs @ ys) c = (case res_run xs c of Inl e \<Rightarrow> Inl e | Inr c' \<Rightarrow> res_run ys c')"
  by (induction xs arbitrary: c) (auto split: sum.splits)

lemma response_of_json:
  "response_of (cors @ [WriteHead st json_type, End b]) =
     Some \<lparr>status = st, header_fields = cors_fields @ json_type, body = utf8_encode b\<rparr>"
  by (simp add: response_of_def res_run_append res_run_cors json_type_def cors_fields_def lower_def)

lemma response_of_preflight:
  "response_of (cors @ [WriteHead 200 [], End []]) =
     Some \<lparr>status = 200, header_fields = cors_fields, body = []\<rparr>"
  by (simp add: response_of_def res_run_append res_run_cors utf8_encode_def)

lemma response_of_cors: "response_of cors = None"
  by (simp add: response_of_def res_run_cors)

lemma one_response_head_end: "one_response (cors @ [WriteHead st hs, End b])"
  by (simp add: one_response_def res_run_append res_run_cors) (simp add: cors_def)

lemma stringify_error:
  \<open>stringify nt (Obj [(ascii ''error'', Str message)]) =
     ascii ''{"error":'' @ json_quote message @ ascii ''}''\<close>
  by (simp add: eval_json)

lemma invalid_json_text:
  \<open>utf8_encode (stringify nt (Obj [(ascii ''error'', Str (ascii ''Invalid JSON''))])) =
     ''{"error":"Invalid JSON"}''\<close>
  by (simp add: eval_json eval_utf8)

lemma not_found_text:
  \<open>utf8_encode (stringify nt (Obj [(ascii ''error'', Str (ascii ''Not found''))])) =
     ''{"error":"Not found"}''\<close>
  by (simp add: eval_json eval_utf8)

lemma reply_json:
  "reply n st message =
     [WriteHead st json_type,
      End (stringify (number_text n) (Obj [(ascii ''error'', Str (ascii message))]))]"
  by (simp add: reply_def json_type_def)

lemma response_of_reply:
  "response_of (cors @ reply n st message) =
     Some \<lparr>status = st, header_fields = cors_fields @ json_type,
            body = utf8_encode
                     (stringify (number_text n) (Obj [(ascii ''error'', Str (ascii message))]))\<rparr>"
  by (simp only: reply_json response_of_json)

lemma get_header_cors:
  "get_header (cors_fields @ hs) ''Access-Control-Allow-Origin'' = Some ''*''"
  "get_header (cors_fields @ hs) ''Access-Control-Allow-Methods'' = Some ''POST, OPTIONS''"
  "get_header (cors_fields @ hs) ''Access-Control-Allow-Headers'' = Some ''Content-Type''"
  by (simp_all add: cors_fields_def lower_def)

lemma callbacks_Failed:
  "callbacks n p (Failed bs message) =
     [WriteHead 500 json_type,
      End (stringify (number_text n) (Obj [(ascii ''error'', Str message)]))]"
  by (cases p) (simp_all add: json_type_def)

lemma callbacks_Ended:
  "callbacks n p (Ended st bs) = [WriteHead st json_type, End (concat (map buffer_toString bs))]"
  by (cases p) (simp_all add: json_type_def)

lemma callbacks_Aborted: "callbacks n p (Aborted st bs) = []"
  by (cases p) simp_all

lemma callbacks_Hung: "callbacks n p Hung = []"
  by (cases p) simp_all

lemma takeWhile_query:
  assumes "0x3F \<notin> set p"
  shows "takeWhile (\<lambda>c. c \<noteq> 0x3F) (p @ 0x3F # q) = p"
  using assms by (induction p) auto

lemma pathname_plain:
  "pathname_of n (ascii ''/anthropic'') = Inr (Some (ascii ''/anthropic''))"
  "pathname_of n (ascii ''/openai'') = Inr (Some (ascii ''/openai''))"
  "pathname_of n (ascii ''/google'') = Inr (Some (ascii ''/google''))"
  "pathname_of n (ascii ''/unknown'') = Inr (Some (ascii ''/unknown''))"
  "pathname_of n (ascii ''/unknown?a=b'') = Inr (Some (ascii ''/unknown''))"
  by (simp_all add: pathname_of_def ascii_def plain_unit_def)

lemma pathname_throws:
  "pathname_of sample_node (ascii ''http://[/'') = Inl (TypeError ''Invalid URL'')"
  by (simp add: pathname_of_def sample_node_def url_parse_sample_def) (simp add: ascii_def)

lemma server_post:
  assumes "req_method req = ''POST''" and "pathname_of n (url req) = Inr pathname"
  shows "server n keys req =
           Inr (on_end n keys cors pathname (concat (map buffer_toString (chunks req))))"
  using assms by (simp add: server_def)

lemma exchange_unissued:
  assumes "server n keys req = Inr h" and "issued h = None"
  shows "exchange n keys req up = Inr h"
  using assms by (simp add: exchange_def split: option.splits)

lemma exchange_issued:
  assumes "server n keys req = Inr h" and "invoked h = Some p" and "issued h = Some cr"
  shows "exchange n keys req up = Inr (h\<lparr>calls := calls h @ callbacks n p up\<rparr>)"
  using assms by (simp add: exchange_def)

lemma exchange_throws:
  assumes "server n keys req = Inl e"
  shows "exchange n keys req up = Inl e"
  using assms by (simp add: exchange_def)

lemma dispatch_accepted:
  assumes "https_request n cr = None"
  shows "dispatch n res p (Inr cr) = \<lparr>calls = res, invoked = Some p, issued = Some cr\<rparr>"
  using assms by (simp add: dispatch_def)

lemma dispatch_thrown:
  "dispatch n res p (Inl e) =
     \<lparr>calls = res @ reply n 400 ''Invalid JSON'', invoked = Some p, issued = None\<rparr>"
  by (simp add: dispatch_def)

lemma on_end_malformed:
  assumes "JSON_parse n buffered = Inl e"
  shows "on_end n keys res pathname buffered =
           \<lparr>calls = res @ reply n 400 ''Invalid JSON'', invoked = None, issued = None\<rparr>"
  using assms by (simp add: on_end_def)

lemma on_end_unrouted:
  assumes "JSON_parse n buffered = Inr data"
    and "pathname \<noteq> Some (ascii ''/anthropic'')"
    and "pathname \<noteq> Some (ascii ''/openai'')"
    and "pathname \<noteq> Some (ascii ''/google'')"
  shows "on_end n keys res pathname buffered =
           \<lparr>calls = res @ reply n 404 ''Not found'', invoked = None, issued = None\<rparr>"
  using assms by (simp add: on_end_def)


lemma on_end_openai:
  assumes "JSON_parse n buffered = Inr data"
  shows "on_end n keys res (Some (ascii ''/openai'')) buffered =
           dispatch n res OpenAI (proxyToOpenAI n keys data)"
  using assms by (simp add: on_end_def)

lemma on_end_google:
  assumes "JSON_parse n buffered = Inr data"
  shows "on_end n keys res (Some (ascii ''/google'')) buffered =
           dispatch n res Google (proxyToGoogle n keys data)"
  using assms by (simp add: on_end_def)

lemma exchange_malformed:
  assumes "req_method req = ''POST''"
    and "pathname_of n (url req) = Inr pathname"
    and "JSON_parse n (concat (map buffer_toString (chunks req))) = Inl e"
  shows "exchange n keys req up =
           Inr \<lparr>calls = cors @ reply n 400 ''Invalid JSON'', invoked = None, issued = None\<rparr>"
proof -
  have "server n keys req =
      Inr \<lparr>calls = cors @ reply n 400 ''Invalid JSON'', invoked = None, issued = None\<rparr>"
    by (simp only: server_post [OF assms(1,2)] on_end_malformed [OF assms(3)])
  then show ?thesis
    by (rule exchange_unissued) simp
qed

lemma dispatch_cases:
  "(\<exists>p' cr. dispatch n res p r = \<lparr>calls = res, invoked = Some p', issued = Some cr\<rparr>)
   \<or> (\<exists>st message. calls (dispatch n res p r) = res @ reply n st message
        \<and> issued (dispatch n res p r) = None)"
proof (cases r)
  case (Inl e)
  then have "calls (dispatch n res p r) = res @ reply n 400 ''Invalid JSON''
      \<and> issued (dispatch n res p r) = None"
    by (simp add: dispatch_def)
  then show ?thesis by blast
next
  case (Inr cr)
  show ?thesis
  proof (cases "https_request n cr")
    case None
    with Inr have "dispatch n res p r = \<lparr>calls = res, invoked = Some p, issued = Some cr\<rparr>"
      by (simp add: dispatch_def)
    then show ?thesis by blast
  next
    case (Some e)
    with Inr have "calls (dispatch n res p r) = res @ reply n 400 ''Invalid JSON''
        \<and> issued (dispatch n res p r) = None"
      by (simp add: dispatch_def)
    then show ?thesis by blast
  qed
qed

lemma on_end_cases:
  "(\<exists>p cr. on_end n keys res pathname buffered = \<lparr>calls = res, invoked = Some p, issued = Some cr\<rparr>)
   \<or> (\<exists>st message. calls (on_end n keys res pathname buffered) = res @ reply n st message
        \<and> issued (on_end n keys res pathname buffered) = None)"
proof (cases "JSON_parse n buffered")
  case (Inl e)
  then have "calls (on_end n keys res pathname buffered) = res @ reply n 400 ''Invalid JSON''
      \<and> issued (on_end n keys res pathname buffered) = None"
    by (simp add: on_end_malformed)
  then show ?thesis by blast
next
  case (Inr data)
  consider (a) "pathname = Some (ascii ''/anthropic'')"
    | (b) "pathname \<noteq> Some (ascii ''/anthropic'')" "pathname = Some (ascii ''/openai'')"
    | (c) "pathname \<noteq> Some (ascii ''/anthropic'')" "pathname \<noteq> Some (ascii ''/openai'')"
          "pathname = Some (ascii ''/google'')"
    | (d) "pathname \<noteq> Some (ascii ''/anthropic'')" "pathname \<noteq> Some (ascii ''/openai'')"
          "pathname \<noteq> Some (ascii ''/google'')"
    by blast
  then show ?thesis
  proof cases
    case a
    then have "on_end n keys res pathname buffered =
        dispatch n res Anthropic (proxyToAnthropic n keys data)"
      by (simp add: on_end_def Inr)
    then show ?thesis by (simp only: dispatch_cases)
  next
    case b
    then have "on_end n keys res pathname buffered =
        dispatch n res OpenAI (proxyToOpenAI n keys data)"
      by (simp add: on_end_def Inr)
    then show ?thesis by (simp only: dispatch_cases)
  next
    case c
    then have "on_end n keys res pathname buffered =
        dispatch n res Google (proxyToGoogle n keys data)"
      by (simp add: on_end_def Inr)
    then show ?thesis by (simp only: dispatch_cases)
  next
    case d
    then have "calls (on_end n keys res pathname buffered) = res @ reply n 404 ''Not found''
        \<and> issued (on_end n keys res pathname buffered) = None"
      using Inr by (simp add: on_end_unrouted)
    then show ?thesis by blast
  qed
qed

lemma server_cases:
  assumes "server n keys req = Inr h"
  shows "(\<exists>p cr. h = \<lparr>calls = cors, invoked = Some p, issued = Some cr\<rparr>)
         \<or> (issued h = None \<and> (calls h = cors @ [WriteHead 200 [], End []]
              \<or> (\<exists>st message. calls h = cors @ reply n st message)))"
proof -
  consider "req_method req = ''OPTIONS''"
    | "req_method req \<noteq> ''OPTIONS''" "req_method req \<noteq> ''POST''"
    | "req_method req = ''POST''" by blast
  then show ?thesis
  proof cases
    case 1
    with assms show ?thesis by (auto simp: server_def)
  next
    case 2
    with assms have
      "h = \<lparr>calls = cors @ reply n 405 ''Method not allowed'', invoked = None, issued = None\<rparr>"
      by (simp add: server_def)
    then show ?thesis by simp blast
  next
    case 3
    with assms obtain pathname where
      h: "h = on_end n keys cors pathname (concat (map buffer_toString (chunks req)))"
      by (auto simp: server_def split: sum.splits)
    show ?thesis
      unfolding h using on_end_cases [of n keys cors pathname] by blast
  qed
qed

lemma server_issued:
  assumes "server n keys req = Inr h" and "issued h = Some cr"
  shows "\<exists>p. h = \<lparr>calls = cors, invoked = Some p, issued = Some cr\<rparr>"
  using server_cases [OF assms(1)] assms(2) by auto

lemma exchange_cases:
  assumes "exchange n keys req up = Inr h"
  shows "calls h = cors \<or> calls h = cors @ [WriteHead 200 [], End []]
         \<or> (\<exists>st b. calls h = cors @ [WriteHead st json_type, End b])"
proof -
  from assms obtain h0 where s: "server n keys req = Inr h0"
    by (auto simp: exchange_def split: sum.splits)
  from server_cases [OF s] show ?thesis
  proof (elim disjE exE conjE)
    fix p cr
    assume h0: "h0 = \<lparr>calls = cors, invoked = Some p, issued = Some cr\<rparr>"
    with s assms have "h = h0\<lparr>calls := cors @ callbacks n p up\<rparr>"
      by (simp add: exchange_def)
    then show ?thesis
      by (cases up)
        (simp_all add: h0 callbacks_Ended callbacks_Failed callbacks_Aborted callbacks_Hung)
  next
    assume "issued h0 = None" and "calls h0 = cors @ [WriteHead 200 [], End []]"
    with s assms show ?thesis by (simp add: exchange_unissued)
  next
    fix st message
    assume "issued h0 = None" and "calls h0 = cors @ reply n st message"
    with s assms show ?thesis by (simp add: exchange_unissued reply_json)
  qed
qed

subsection \<open>The example requests\<close>

lemma ascii_bodies:
  "list_all (\<lambda>c. (of_char c :: nat) < 0x80) gpt4_body"
  "list_all (\<lambda>c. (of_char c :: nat) < 0x80) zero_body"
  "list_all (\<lambda>c. (of_char c :: nat) < 0x80) large_body"
  "list_all (\<lambda>c. (of_char c :: nat) < 0x80) gemini_body"
  "list_all (\<lambda>c. (of_char c :: nat) < 0x80) ''null''"
  "list_all (\<lambda>c. (of_char c :: nat) < 0x80) ''{}''"
  "list_all (\<lambda>c. (of_char c :: nat) < 0x80) ''not-json''"
  by (simp_all add: gpt4_body_def zero_body_def large_body_def gemini_body_def)

lemma well_formed_ascii:
  "list_all (\<lambda>c. (of_char c :: nat) < 0x80) cs \<Longrightarrow> well_formed cs"
  by (induction cs) (simp_all add: classify_def)

lemma sample_parse:
  "JSON_parse sample_node (ascii ''null'') = Inr Null"
  "JSON_parse sample_node (ascii ''{}'') = Inr (Obj [])"
  "JSON_parse sample_node (ascii gpt4_body) = Inr gpt4_data"
  "JSON_parse sample_node (ascii zero_body) = Inr zero_data"
  "JSON_parse sample_node (ascii large_body) = Inr large_data"
  "JSON_parse sample_node (ascii gemini_body) = Inr gemini_data"
  "JSON_parse sample_node (ascii ''not-json'') = Inl (SyntaxError ''Unexpected token'')"
  by (simp_all add: sample_node_def JSON_parse_sample_def gpt4_body_def zero_body_def
        large_body_def gemini_body_def)

lemma sample_accepts [simp]: "https_request sample_node cr = None"
  by (simp add: sample_node_def)

lemma gpt4_text: "stringify nt gpt4_data = ascii gpt4_body"
  by (simp add: gpt4_data_def gpt4_body_def eval_json)

lemma gpt4_length: "byteLength (ascii gpt4_body) = 61"
  by (simp add: byteLength_def utf8_encode_ascii ascii_bodies) (simp add: gpt4_body_def)

lemma openai_gpt4: "proxyToOpenAI n sample_keys gpt4_data = Inr gpt4_outbound"
proof -
  have "proxyToOpenAI n sample_keys gpt4_data = Inr (openai_options sample_keys (stringify (number_text n) gpt4_data))"
    by (simp add: proxyToOpenAI_def) (simp add: gpt4_data_def)
  then show ?thesis
    by (simp add: gpt4_text gpt4_length openai_options_def gpt4_outbound_def sample_keys_def
          key_text_def ascii_append [symmetric])
qed

lemma server_gpt4_request:
  "server sample_node sample_keys gpt4_request =
     Inr \<lparr>calls = cors, invoked = Some OpenAI, issued = Some gpt4_outbound\<rparr>"
proof -
  have "server sample_node sample_keys gpt4_request =
      Inr (on_end sample_node sample_keys cors (Some (ascii ''/openai''))
             (concat (map buffer_toString (chunks gpt4_request))))"
    by (rule server_post) (simp_all add: gpt4_request_def post_def pathname_plain)
  then show ?thesis
    by (simp add: gpt4_request_def post_def buffer_toString_ascii ascii_bodies
          on_end_openai [OF sample_parse(3)] openai_gpt4 dispatch_accepted)
qed

lemma response_of_invalid_json:
  \<open>response_of (cors @ reply n 400 ''Invalid JSON'') =
     Some \<lparr>status = 400, header_fields = cors_fields @ json_type,
           body = ''{"error":"Invalid JSON"}''\<rparr>\<close>
  by (simp only: response_of_reply invalid_json_text)

lemma response_of_not_found:
  \<open>response_of (cors @ reply n 404 ''Not found'') =
     Some \<lparr>status = 404, header_fields = cors_fields @ json_type,
           body = ''{"error":"Not found"}''\<rparr>\<close>
  by (simp only: response_of_reply not_found_text)

lemma post_simps [simp]:
  "req_method (post target bs) = ''POST''"
  "url (post target bs) = ascii target"
  "chunks (post target bs) = bs"
  by (simp_all add: post_def)


lemma server_openai:
  assumes "req_method req = ''POST''"
    and "pathname_of n (url req) = Inr (Some (ascii ''/openai''))"
    and "JSON_parse n (concat (map buffer_toString (chunks req))) = Inr data"
  shows "server n keys req = Inr (dispatch n cors OpenAI (proxyToOpenAI n keys data))"
  by (simp only: server_post [OF assms(1,2)] on_end_openai [OF assms(3)])

lemma server_google:
  assumes "req_method req = ''POST''"
    and "pathname_of n (url req) = Inr (Some (ascii ''/google''))"
    and "JSON_parse n (concat (map buffer_toString (chunks req))) = Inr data"
  shows "server n keys req = Inr (dispatch n cors Google (proxyToGoogle n keys data))"
  by (simp only: server_post [OF assms(1,2)] on_end_google [OF assms(3)])

lemma sample_number_text [simp]: "number_text sample_node = number_text_sample"
  by (simp add: sample_node_def)

lemma sample_null:
  "JSON_parse sample_node (concat (map buffer_toString [''null''])) = Inr Null"
  using sample_parse(1) by (simp add: buffer_toString_ascii)

lemma sample_empty:
  "JSON_parse sample_node (concat (map buffer_toString [''{}''])) = Inr (Obj [])"
  using sample_parse(2) by (simp add: buffer_toString_ascii)




text \<open>
  A request body whose character C3 A9 is cut between two chunks is not buffered as
  the text of the whole body: line 34 decodes each chunk on its own.
\<close>

lemma request_split_character:
  "concat (map buffer_toString split_body) \<noteq> buffer_toString (concat split_body)"
  by (simp add: split_body_def buffer_toString_def classify_def utf16_def)

text \<open>A model that is the number 1e21 is written \<^verbatim>\<open>1e+21\<close> in the path.\<close>

lemma google_number_model:
  \<open>proxyToGoogle sample_node sample_keys
      (Obj [(ascii ''model'', Num 0x444B1AE4D6E2EF50), (ascii ''prompt'', Str (ascii ''hi''))]) =
     Inr (google_options sample_keys (ascii ''1e+21'')
            (ascii ''{"contents":[{"parts":[{"text":"hi"}]}]}''))\<close>
  \<open>path (google_options sample_keys (ascii ''1e+21'') postData) =
     ascii ''/v1beta/models/1e+21:generateContent?key=g-key''\<close>
  by (simp_all add: proxyToGoogle_def number_text_sample_def number_4096_def google_payload_def
        google_options_def sample_keys_def key_text_def eval_json)

section \<open>The payloads of the adapters\<close>




text \<open>
  C3. The claim: for every valid JSON body sent to POST /openai the outbound payload is
  exactly \<^verbatim>\<open>{model, messages}\<close>, no other input field is forwarded, and with an echoing
  upstream the gpt-4 body is sent unchanged. What holds: for a POST request with
  pathname \<^verbatim>\<open>/openai\<close> whose chunks are each well-formed UTF-8 and whose body parses to a
  value other than \<^verbatim>\<open>null\<close>, the listener hands \<^verbatim>\<open>https.request\<close> the OpenAI options and
  the text \<^verbatim>\<open>JSON.stringify\<close> writes for the object of the parsed \<^verbatim>\<open>model\<close> and
  \<^verbatim>\<open>messages\<close>; a property of the input under any other name changes nothing; and where
  the gpt-4 body parses to its value and \<^verbatim>\<open>https.request\<close> accepts the request, the bytes
  written upstream are the body, and the upstream's echo comes back with status 200.
\<close>

theorem openai_payload:
  assumes "req_method req = ''POST''"
    and "pathname_of n (url req) = Inr (Some (ascii ''/openai''))"
    and "list_all well_formed (chunks req)"
    and "JSON_parse n (buffer_toString (concat (chunks req))) = Inr data"
    and "data \<noteq> Null" and "data \<noteq> Undefined"
  shows "server n keys req =
           Inr (dispatch n cors OpenAI
                  (Inr (openai_options keys
                          (stringify (number_text n)
                             (Obj [(ascii ''model'', field data ''model''),
                                   (ascii ''messages'', field data ''messages'')])))))
         \<and> (k \<noteq> ascii ''model'' \<and> k \<noteq> ascii ''messages'' \<longrightarrow>
              proxyToOpenAI n keys (Obj ((k, v) # kvs)) = proxyToOpenAI n keys (Obj kvs))
         \<and> (JSON_parse n (ascii gpt4_body) = Inr gpt4_data
              \<and> https_request n (openai_options keys (ascii gpt4_body)) = None \<longrightarrow>
            exchange n keys gpt4_request (Ended 200 [gpt4_body]) =
              Inr \<lparr>calls = cors @ [WriteHead 200 json_type, End (ascii gpt4_body)],
                   invoked = Some OpenAI,
                   issued = Some (openai_options keys (ascii gpt4_body))\<rparr>
            \<and> utf8_encode (written (openai_options keys (ascii gpt4_body))) = gpt4_body
            \<and> response_of (cors @ [WriteHead 200 json_type, End (ascii gpt4_body)]) =
                Some \<lparr>status = 200, header_fields = cors_fields @ json_type, body = gpt4_body\<rparr>)"
proof -
  have "JSON_parse n (concat (map buffer_toString (chunks req))) = Inr data"
    by (simp only: buffered_whole [OF assms(3)] assms(4))
  then have "server n keys req = Inr (dispatch n cors OpenAI (proxyToOpenAI n keys data))"
    by (rule server_openai [OF assms(1,2)])
  then have first: "server n keys req =
           Inr (dispatch n cors OpenAI
                  (Inr (openai_options keys
                          (stringify (number_text n)
                             (Obj [(ascii ''model'', field data ''model''),
                                   (ascii ''messages'', field data ''messages'')])))))"
    by (simp add: proxyToOpenAI_def get_prop_defined [OF assms(5,6)])
  have second: "k \<noteq> ascii ''model'' \<and> k \<noteq> ascii ''messages'' \<longrightarrow>
      proxyToOpenAI n keys (Obj ((k, v) # kvs)) = proxyToOpenAI n keys (Obj kvs)"
    by (simp add: proxyToOpenAI_def)
  have third: "exchange n keys gpt4_request (Ended 200 [gpt4_body]) =
              Inr \<lparr>calls = cors @ [WriteHead 200 json_type, End (ascii gpt4_body)],
                   invoked = Some OpenAI,
                   issued = Some (openai_options keys (ascii gpt4_body))\<rparr>"
    if p: "JSON_parse n (ascii gpt4_body) = Inr gpt4_data"
      and q: "https_request n (openai_options keys (ascii gpt4_body)) = None"
  proof -
    have "JSON_parse n (concat (map buffer_toString (chunks gpt4_request))) = Inr gpt4_data"
      using p by (simp add: gpt4_request_def buffer_toString_ascii ascii_bodies)
    then have "server n keys gpt4_request =
        Inr (dispatch n cors OpenAI (proxyToOpenAI n keys gpt4_data))"
      by (rule server_openai [rotated 2]) (simp_all only: gpt4_request_def post_simps pathname_plain)
    moreover have "proxyToOpenAI n keys gpt4_data = Inr (openai_options keys (ascii gpt4_body))"
      using gpt4_text [of "number_text n"]
      by (simp add: proxyToOpenAI_def) (simp add: gpt4_data_def)
    ultimately have "server n keys gpt4_request =
        Inr \<lparr>calls = cors, invoked = Some OpenAI,
             issued = Some (openai_options keys (ascii gpt4_body))\<rparr>"
      by (simp add: dispatch_accepted [OF q])
    then have "exchange n keys gpt4_request (Ended 200 [gpt4_body]) =
        Inr (\<lparr>calls = cors, invoked = Some OpenAI,
              issued = Some (openai_options keys (ascii gpt4_body))\<rparr>
             \<lparr>calls := cors @ callbacks n OpenAI (Ended 200 [gpt4_body])\<rparr>)"
      by (simp add: exchange_def)
    then show ?thesis
      by (simp add: callbacks_Ended buffer_toString_ascii ascii_bodies)
  qed
  have fourth: "utf8_encode (written (openai_options keys (ascii gpt4_body))) = gpt4_body"
    by (simp add: openai_options_def utf8_encode_ascii ascii_bodies)
  have fifth: "response_of (cors @ [WriteHead 200 json_type, End (ascii gpt4_body)]) =
      Some \<lparr>status = 200, header_fields = cors_fields @ json_type, body = gpt4_body\<rparr>"
    by (simp add: response_of_json utf8_encode_ascii ascii_bodies)
  from first second third fourth fifth show ?thesis by blast
qed

text \<open>The gpt-4 request, with a \<^verbatim>\<open>max_tokens\<close> that is not forwarded.\<close>

theorem openai_payload_witness:
  "server sample_node sample_keys gpt4_request =
     Inr \<lparr>calls = cors, invoked = Some OpenAI, issued = Some gpt4_outbound\<rparr>
   \<and> proxyToOpenAI sample_node sample_keys
       (Obj [(ascii ''max_tokens'', Num 0), (ascii ''model'', Str (ascii ''gpt-4''))]) =
     proxyToOpenAI sample_node sample_keys (Obj [(ascii ''model'', Str (ascii ''gpt-4''))])
   \<and> exchange sample_node sample_keys gpt4_request (Ended 200 [gpt4_body]) =
     Inr \<lparr>calls = cors @ [WriteHead 200 json_type, End (ascii gpt4_body)],
          invoked = Some OpenAI, issued = Some gpt4_outbound\<rparr>
   \<and> utf8_encode (written gpt4_outbound) = gpt4_body
   \<and> response_of (cors @ [WriteHead 200 json_type, End (ascii gpt4_body)]) =
     Some \<lparr>status = 200, header_fields = cors_fields @ json_type, body = gpt4_body\<rparr>"
proof -
  have 1: "req_method gpt4_request = ''POST''"
    by (simp add: gpt4_request_def)
  have 2: "pathname_of sample_node (url gpt4_request) = Inr (Some (ascii ''/openai''))"
    by (simp only: gpt4_request_def post_simps pathname_plain)
  have "well_formed gpt4_body"
    by (rule well_formed_ascii) (rule ascii_bodies)
  then have 3: "list_all well_formed (chunks gpt4_request)"
    by (simp only: gpt4_request_def post_simps list.pred_inject simp_thms)
  have 4: "JSON_parse sample_node (buffer_toString (concat (chunks gpt4_request))) = Inr gpt4_data"
    using sample_parse(3)
    by (simp add: gpt4_request_def buffer_toString_ascii ascii_bodies)
  have 5: "gpt4_data \<noteq> Null" and 6: "gpt4_data \<noteq> Undefined"
    by (simp_all add: gpt4_data_def)
  have 7: "openai_options sample_keys (ascii gpt4_body) = gpt4_outbound"
    using gpt4_length
    by (simp add: openai_options_def gpt4_outbound_def sample_keys_def key_text_def
          ascii_append [symmetric])
  have 8: "stringify (number_text sample_node)
       (Obj [(ascii ''model'', field gpt4_data ''model''),
             (ascii ''messages'', field gpt4_data ''messages'')]) = ascii gpt4_body"
    using gpt4_text [of "number_text sample_node"]
    by (simp add: gpt4_data_def field_Obj)
  have 9: "ascii ''max_tokens'' \<noteq> ascii ''model'' \<and> ascii ''max_tokens'' \<noteq> ascii ''messages''"
    by simp
  have 10: "JSON_parse sample_node (ascii gpt4_body) = Inr gpt4_data
      \<and> https_request sample_node (openai_options sample_keys (ascii gpt4_body)) = None"
    by (simp only: sample_parse sample_accepts simp_thms)
  show ?thesis
    using openai_payload [OF 1 2 3 4 5 6, of sample_keys "ascii ''max_tokens''" "Num 0"
        "[(ascii ''model'', Str (ascii ''gpt-4''))]"] 9 10
    by (simp only: 7 8 dispatch_accepted sample_accepts simp_thms)
qed

text \<open>
  The claim fails on the body \<^verbatim>\<open>null\<close>, which is valid JSON: the adapter is called, its
  first property read throws before \<^verbatim>\<open>https.request\<close>, and the caller gets 400
  \<^verbatim>\<open>{"error":"Invalid JSON"}\<close>.
\<close>

theorem openai_null_body:
  \<open>JSON_parse sample_node (buffer_toString ''null'') = Inr Null
   \<and> exchange sample_node sample_keys (post ''/openai'' [''null'']) (Ended 200 [gpt4_body]) =
     Inr \<lparr>calls = cors @ reply sample_node 400 ''Invalid JSON'', invoked = Some OpenAI,
          issued = None\<rparr>
   \<and> response_of (cors @ reply sample_node 400 ''Invalid JSON'') =
     Some \<lparr>status = 400, header_fields = cors_fields @ json_type,
           body = ''{"error":"Invalid JSON"}''\<rparr>\<close>
proof -
  have "JSON_parse sample_node (buffer_toString ''null'') = Inr Null"
    using sample_parse(1) by (simp add: buffer_toString_ascii)
  moreover have "server sample_node sample_keys (post ''/openai'' [''null'']) =
      Inr (dispatch sample_node cors OpenAI (proxyToOpenAI sample_node sample_keys Null))"
    by (rule server_openai) (simp_all only: post_simps pathname_plain sample_null)
  then have "server sample_node sample_keys (post ''/openai'' [''null'']) =
     Inr \<lparr>calls = cors @ reply sample_node 400 ''Invalid JSON'', invoked = Some OpenAI,
          issued = None\<rparr>"
    by (simp add: proxyToOpenAI_def dispatch_thrown)
  then have "exchange sample_node sample_keys (post ''/openai'' [''null'']) (Ended 200 [gpt4_body]) =
     Inr \<lparr>calls = cors @ reply sample_node 400 ''Invalid JSON'', invoked = Some OpenAI,
          issued = None\<rparr>"
    by (rule exchange_unissued) simp
  ultimately show ?thesis
    using response_of_invalid_json [of sample_node] by (intro conjI)
qed

text \<open>
  C4. The claim: for every valid JSON body sent to POST /google the outbound payload is
  exactly \<^verbatim>\<open>{contents: [{parts: [{text: prompt}]}]}\<close>, \<^verbatim>\<open>messages\<close> is never used, and the
  request targets \<^verbatim>\<open>/v1beta/models/{model}:generateContent\<close> with the key as a query
  parameter and not a header. What holds: for a POST request with pathname \<^verbatim>\<open>/google\<close>
  whose chunks are each well-formed UTF-8, whose body parses to a value other than
  \<^verbatim>\<open>null\<close> and whose \<^verbatim>\<open>model\<close> has a string conversion, the listener hands
  \<^verbatim>\<open>https.request\<close> the text \<^verbatim>\<open>JSON.stringify\<close> writes for that object around the parsed
  \<^verbatim>\<open>prompt\<close>, on the path made of the model's text and the key, with the two headers
  \<^verbatim>\<open>Content-Type\<close> and \<^verbatim>\<open>Content-Length\<close> only; and a \<^verbatim>\<open>messages\<close> property changes
  nothing.
\<close>

theorem google_request:
  assumes "req_method req = ''POST''"
    and "pathname_of n (url req) = Inr (Some (ascii ''/google''))"
    and "list_all well_formed (chunks req)"
    and "JSON_parse n (buffer_toString (concat (chunks req))) = Inr data"
    and "data \<noteq> Null" and "data \<noteq> Undefined"
    and "to_string (number_text n) (field data ''model'') = Inr model"
  shows "server n keys req =
           Inr (dispatch n cors Google
                  (Inr (google_options keys model
                          (stringify (number_text n) (google_payload (field data ''prompt''))))))
         \<and> path (google_options keys model postData) =
             ascii ''/v1beta/models/'' @ model @ ascii '':generateContent?key=''
               @ key_text (google keys)
         \<and> map fst (request_headers (google_options keys model postData)) =
             [''Content-Type'', ''Content-Length'']
         \<and> written (google_options keys model postData) = postData
         \<and> proxyToGoogle n keys (Obj ((ascii ''messages'', v) # kvs)) =
             proxyToGoogle n keys (Obj kvs)"
proof -
  have "JSON_parse n (concat (map buffer_toString (chunks req))) = Inr data"
    by (simp only: buffered_whole [OF assms(3)] assms(4))
  then have "server n keys req = Inr (dispatch n cors Google (proxyToGoogle n keys data))"
    by (rule server_google [OF assms(1,2)])
  then have "server n keys req =
           Inr (dispatch n cors Google
                  (Inr (google_options keys model
                          (stringify (number_text n) (google_payload (field data ''prompt''))))))"
    by (simp add: proxyToGoogle_def get_prop_defined [OF assms(5,6)] assms(7))
  moreover have "proxyToGoogle n keys (Obj ((ascii ''messages'', v) # kvs)) =
      proxyToGoogle n keys (Obj kvs)"
    by (simp add: proxyToGoogle_def)
  ultimately show ?thesis
    by (simp add: google_options_def)
qed

text \<open>The model \<^verbatim>\<open>gemini-pro\<close> with the prompt \<^verbatim>\<open>hi\<close> and a \<^verbatim>\<open>messages\<close> field.\<close>

theorem google_request_witness:
  \<open>server sample_node sample_keys (post ''/google'' [gemini_body]) =
     Inr \<lparr>calls = cors, invoked = Some Google,
          issued = Some
            \<lparr>hostname = ''generativelanguage.googleapis.com'', port = 443,
             path = ascii ''/v1beta/models/gemini-pro:generateContent?key=g-key'',
             http_method = ''POST'',
             request_headers = [(''Content-Type'', Text (ascii ''application/json'')),
                                (''Content-Length'', Count 40)],
             written = ascii ''{"contents":[{"parts":[{"text":"hi"}]}]}''\<rparr>\<rparr>\<close>
proof -
  let ?req = "post ''/google'' [gemini_body]"
  have 1: "req_method ?req = ''POST''"
    by simp
  have 2: "pathname_of sample_node (url ?req) = Inr (Some (ascii ''/google''))"
    by (simp only: post_simps pathname_plain)
  have "well_formed gemini_body"
    by (rule well_formed_ascii) (rule ascii_bodies)
  then have 3: "list_all well_formed (chunks ?req)"
    by (simp only: post_simps list.pred_inject simp_thms)
  have 4: "JSON_parse sample_node (buffer_toString (concat (chunks ?req))) = Inr gemini_data"
    using sample_parse(6) by (simp add: buffer_toString_ascii ascii_bodies)
  have 5: "gemini_data \<noteq> Null" and 6: "gemini_data \<noteq> Undefined"
    by (simp_all add: gemini_data_def)
  have 7: "to_string (number_text sample_node) (field gemini_data ''model'') =
      Inr (ascii ''gemini-pro'')"
    by (simp add: gemini_data_def field_Obj)
  have 8: \<open>stringify (number_text sample_node) (google_payload (field gemini_data ''prompt'')) =
      ascii ''{"contents":[{"parts":[{"text":"hi"}]}]}''\<close>
    by (simp add: gemini_data_def field_Obj google_payload_def eval_json)
  have \<open>byteLength (ascii ''{"contents":[{"parts":[{"text":"hi"}]}]}'') = 40\<close>
    by (simp add: byteLength_def utf8_encode_ascii)
  then have 9: \<open>google_options sample_keys (ascii ''gemini-pro'')
                 (ascii ''{"contents":[{"parts":[{"text":"hi"}]}]}'') =
            \<lparr>hostname = ''generativelanguage.googleapis.com'', port = 443,
             path = ascii ''/v1beta/models/gemini-pro:generateContent?key=g-key'',
             http_method = ''POST'',
             request_headers = [(''Content-Type'', Text (ascii ''application/json'')),
                                (''Content-Length'', Count 40)],
             written = ascii ''{"contents":[{"parts":[{"text":"hi"}]}]}''\<rparr>\<close>
    by (simp add: google_options_def sample_keys_def key_text_def ascii_append [symmetric])
  show ?thesis
    using google_request [OF 1 2 3 4 5 6 7, of sample_keys]
    by (simp only: 8 9 dispatch_accepted sample_accepts)
qed

text \<open>
  The claim fails on the body \<^verbatim>\<open>null\<close>, which is valid JSON: the adapter is called, the
  read of \<^verbatim>\<open>prompt\<close> throws before \<^verbatim>\<open>https.request\<close>, and the caller gets 400
  \<^verbatim>\<open>{"error":"Invalid JSON"}\<close>.
\<close>

theorem google_null_body:
  \<open>JSON_parse sample_node (buffer_toString ''null'') = Inr Null
   \<and> exchange sample_node sample_keys (post ''/google'' [''null'']) Hung =
     Inr \<lparr>calls = cors @ reply sample_node 400 ''Invalid JSON'', invoked = Some Google,
          issued = None\<rparr>
   \<and> response_of (cors @ reply sample_node 400 ''Invalid JSON'') =
     Some \<lparr>status = 400, header_fields = cors_fields @ json_type,
           body = ''{"error":"Invalid JSON"}''\<rparr>\<close>
proof -
  have "JSON_parse sample_node (buffer_toString ''null'') = Inr Null"
    using sample_parse(1) by (simp add: buffer_toString_ascii)
  moreover have "server sample_node sample_keys (post ''/google'' [''null'']) =
      Inr (dispatch sample_node cors Google (proxyToGoogle sample_node sample_keys Null))"
    by (rule server_google) (simp_all only: post_simps pathname_plain sample_null)
  then have "server sample_node sample_keys (post ''/google'' [''null'']) =
     Inr \<lparr>calls = cors @ reply sample_node 400 ''Invalid JSON'', invoked = Some Google,
          issued = None\<rparr>"
    by (simp add: proxyToGoogle_def dispatch_thrown)
  then have "exchange sample_node sample_keys (post ''/google'' [''null'']) Hung =
     Inr \<lparr>calls = cors @ reply sample_node 400 ''Invalid JSON'', invoked = Some Google,
          issued = None\<rparr>"
    by (rule exchange_unissued) simp
  ultimately show ?thesis
    using response_of_invalid_json [of sample_node] by (intro conjI)
qed

section \<open>Relaying the upstream response\<close>

lemma relay_response:
  "response_of (cors @ callbacks n p (Ended st bs)) =
     Some \<lparr>status = st, header_fields = cors_fields @ json_type,
            body = utf8_encode (concat (map buffer_toString bs))\<rparr>"
  by (simp only: callbacks_Ended response_of_json)

lemma relay_well_formed:
  assumes "list_all well_formed bs"
  shows "response_of (cors @ callbacks n p (Ended st bs)) =
           Some \<lparr>status = st, header_fields = cors_fields @ json_type, body = concat bs\<rparr>"
  by (simp only: relay_response utf8_encode_decoded [OF assms])

lemma split_body_ill_formed:
  "well_formed (concat split_body) \<and> \<not> list_ex well_formed split_body"
  by (simp add: split_body_def classify_def)

text \<open>
  C5. The claim: the caller gets the upstream's status, \<^verbatim>\<open>Content-Type: application/json\<close>
  and the upstream's body byte for byte. The code, for each adapter, at an upstream
  body whose character C3 A9 is cut between two chunks: status and content type are
  the upstream's, but each chunk is decoded on its own, so the caller gets two
  U+FFFD (EF BF BD EF BF BD) in place of the character.
\<close>

theorem relay_split_character:
  \<open>response_of (cors @ callbacks n p (Ended 200 split_body)) =
     Some \<lparr>status = 200, header_fields = cors_fields @ json_type,
            body = ''{"t":"'' @ replacement @ replacement @ ''"}''\<rparr>
   \<and> concat split_body = ''{"t":"'' @ [CHR 0xC3, CHR 0xA9] @ ''"}''
   \<and> ''{"t":"'' @ replacement @ replacement @ ''"}'' \<noteq> concat split_body
   \<and> map_sum id (\<lambda>h. response_of (calls h))
        (exchange sample_node sample_keys gpt4_request (Ended 200 split_body)) =
       Inr (Some \<lparr>status = 200, header_fields = cors_fields @ json_type,
                   body = ''{"t":"'' @ replacement @ replacement @ ''"}''\<rparr>)\<close>
proof -
  have \<open>concat (map buffer_toString split_body) =
      ascii ''{"t":"'' @ [0xFFFD, 0xFFFD] @ ascii ''"}''\<close>
    by (simp add: split_body_def buffer_toString_def classify_def utf16_def ascii_def)
  then have b: \<open>utf8_encode (concat (map buffer_toString split_body)) =
      ''{"t":"'' @ replacement @ replacement @ ''"}''\<close>
    by (simp add: ascii_def eval_utf8 high_surrogate_def low_surrogate_def replacement_def)
  have r: \<open>response_of (cors @ callbacks m q (Ended 200 split_body)) =
     Some \<lparr>status = 200, header_fields = cors_fields @ json_type,
            body = ''{"t":"'' @ replacement @ replacement @ ''"}''\<rparr>\<close> for m q
    by (simp only: relay_response b)
  have "exchange sample_node sample_keys gpt4_request (Ended 200 split_body) =
      Inr \<lparr>calls = cors @ callbacks sample_node OpenAI (Ended 200 split_body),
           invoked = Some OpenAI, issued = Some gpt4_outbound\<rparr>"
    by (simp add: exchange_issued [OF server_gpt4_request])
  then have "map_sum id (\<lambda>h. response_of (calls h))
        (exchange sample_node sample_keys gpt4_request (Ended 200 split_body)) =
       Inr (response_of (cors @ callbacks sample_node OpenAI (Ended 200 split_body)))"
    by simp
  moreover have \<open>''{"t":"'' @ replacement @ replacement @ ''"}'' \<noteq> concat split_body\<close>
    and \<open>concat split_body = ''{"t":"'' @ [CHR 0xC3, CHR 0xA9] @ ''"}''\<close>
    by (simp_all add: split_body_def replacement_def)
  ultimately show ?thesis
    by (simp only: r simp_thms)
qed

section \<open>Failure of the outbound request\<close>

text \<open>
  Where \<^verbatim>\<open>proxyReq\<close> emits \<^verbatim>\<open>error\<close>, with or without chunks of a response before it,
  the caller gets status 500 with the body \<^verbatim>\<open>{"error": message}\<close>, the message quoted as
  JSON, and the calls on the channel make exactly one response.
\<close>

lemma upstream_failure:
  assumes "server n keys req = Inr h" and "issued h = Some cr"
  shows "exchange n keys req (Failed bs message) =
           Inr (h\<lparr>calls := cors @ [WriteHead 500 json_type,
                                  End (ascii ''{'' @ json_quote (ascii ''error'') @ ascii '':''
                                         @ json_quote message @ ascii ''}'')]\<rparr>)"
    and "response_of (cors @ callbacks n p (Failed bs message)) =
           Some \<lparr>status = 500, header_fields = cors_fields @ json_type,
                  body = utf8_encode (ascii ''{'' @ json_quote (ascii ''error'') @ ascii '':''
                                        @ json_quote message @ ascii ''}'')\<rparr>"
    and "one_response (cors @ callbacks n p (Failed bs message))"
proof -
  from server_issued [OF assms] obtain p' where
    h: "h = \<lparr>calls = cors, invoked = Some p', issued = Some cr\<rparr>" by blast
  have "exchange n keys req (Failed bs message) =
      Inr (h\<lparr>calls := calls h @ callbacks n p' (Failed bs message)\<rparr>)"
    by (rule exchange_issued [OF assms(1)]) (simp_all add: h)
  then show "exchange n keys req (Failed bs message) =
           Inr (h\<lparr>calls := cors @ [WriteHead 500 json_type,
                                  End (ascii ''{'' @ json_quote (ascii ''error'') @ ascii '':''
                                         @ json_quote message @ ascii ''}'')]\<rparr>)"
    by (simp add: h callbacks_Failed)
  show "response_of (cors @ callbacks n p (Failed bs message)) =
           Some \<lparr>status = 500, header_fields = cors_fields @ json_type,
                  body = utf8_encode (ascii ''{'' @ json_quote (ascii ''error'') @ ascii '':''
                                        @ json_quote message @ ascii ''}'')\<rparr>"
    by (simp add: callbacks_Failed response_of_json)
  show "one_response (cors @ callbacks n p (Failed bs message))"
    by (simp only: callbacks_Failed one_response_head_end)
qed

text \<open>
  The body for the message \<^verbatim>\<open>socket hang up\<close>, and for a message that holds a quotation
  mark and a line feed.
\<close>

lemma upstream_failure_text:
  \<open>response_of (cors @ callbacks n p (Failed bs (ascii ''socket hang up''))) =
     Some \<lparr>status = 500, header_fields = cors_fields @ json_type,
           body = ''{"error":"socket hang up"}''\<rparr>\<close>
  \<open>response_of (cors @ callbacks n p (Failed bs (ascii ''a"b'' @ [0x0A]))) =
     Some \<lparr>status = 500, header_fields = cors_fields @ json_type,
           body = ''{"error":"a'' @ [CHR 0x5C] @ ''"b'' @ [CHR 0x5C] @ ''n"}''\<rparr>\<close>
  by (simp_all add: callbacks_Failed response_of_json eval_json eval_utf8)

text \<open>
  C6. The claim: for every adapter, if the outbound connection fails, also mid-flight,
  the caller gets status 500 with \<^verbatim>\<open>{"error": description}\<close>, and this is the single
  response for the request. The code, at an upstream that sends its head and a part of
  its body and then closes the connection: \<^verbatim>\<open>proxyRes\<close> is aborted without \<^verbatim>\<open>end\<close>, and
  \<^verbatim>\<open>proxyReq\<close> emits no \<^verbatim>\<open>error\<close> once a response has begun, so neither callback runs: the
  outbound request was issued, and the caller gets no response at all.
\<close>

theorem upstream_close_unanswered:
  \<open>exchange sample_node sample_keys gpt4_request (Aborted 200 [''{"id":'']) =
     Inr \<lparr>calls = cors, invoked = Some OpenAI, issued = Some gpt4_outbound\<rparr>
   \<and> response_of cors = None
   \<and> \<not> one_response cors\<close>
proof -
  have \<open>exchange sample_node sample_keys gpt4_request (Aborted 200 [''{"id":'']) =
      Inr \<lparr>calls = cors, invoked = Some OpenAI, issued = Some gpt4_outbound\<rparr>\<close>
    by (simp add: exchange_issued [OF server_gpt4_request] callbacks_Aborted)
  moreover have "\<not> one_response cors"
    by (simp add: one_response_def cors_def)
  ultimately show ?thesis
    by (simp only: response_of_cors simp_thms)
qed

section \<open>Cross-origin headers\<close>

lemma exchange_unknown_request:
  "exchange sample_node sample_keys unknown_request Hung =
     Inr \<lparr>calls = cors @ reply sample_node 404 ''Not found'', invoked = None, issued = None\<rparr>"
proof -
  have "server sample_node sample_keys unknown_request =
      Inr (on_end sample_node sample_keys cors (Some (ascii ''/unknown''))
             (concat (map buffer_toString (chunks unknown_request))))"
    by (rule server_post) (simp_all only: unknown_request_def post_simps pathname_plain)
  then have "server sample_node sample_keys unknown_request =
      Inr \<lparr>calls = cors @ reply sample_node 404 ''Not found'', invoked = None, issued = None\<rparr>"
    by (simp add: unknown_request_def buffer_toString_ascii on_end_unrouted [OF sample_parse(2)])
  then show ?thesis
    by (rule exchange_unissued) simp
qed

text \<open>
  C7. Every response the relay produces carries the three cross-origin headers:
  whatever the request, the parser and the fate of the outbound request, if the
  exchange ends with a response to the caller, then that response has
  \<^verbatim>\<open>Access-Control-Allow-Origin: *\<close>, \<^verbatim>\<open>Access-Control-Allow-Methods: POST, OPTIONS\<close> and
  \<^verbatim>\<open>Access-Control-Allow-Headers: Content-Type\<close>.
\<close>

theorem cors_on_every_response:
  assumes "exchange n keys req up = Inr h"
    and "response_of (calls h) = Some r"
  shows "get_header (header_fields r) ''Access-Control-Allow-Origin'' = Some ''*''
       \<and> get_header (header_fields r) ''Access-Control-Allow-Methods'' = Some ''POST, OPTIONS''
       \<and> get_header (header_fields r) ''Access-Control-Allow-Headers'' = Some ''Content-Type''"
proof -
  from exchange_cases [OF assms(1)] assms(2)
  have "header_fields r = cors_fields @ [] \<or> header_fields r = cors_fields @ json_type"
    by (auto simp: response_of_cors response_of_preflight response_of_json)
  then show ?thesis
    using get_header_cors by metis
qed

theorem cors_on_every_response_witness:
  \<open>exchange sample_node sample_keys unknown_request Hung =
     Inr \<lparr>calls = cors @ reply sample_node 404 ''Not found'', invoked = None, issued = None\<rparr>
   \<and> response_of (cors @ reply sample_node 404 ''Not found'') =
       Some \<lparr>status = 404, header_fields = cors_fields @ json_type,
              body = ''{"error":"Not found"}''\<rparr>
   \<and> get_header (cors_fields @ json_type) ''Access-Control-Allow-Origin'' = Some ''*''
   \<and> get_header (cors_fields @ json_type) ''Access-Control-Allow-Methods'' = Some ''POST, OPTIONS''
   \<and> get_header (cors_fields @ json_type) ''Access-Control-Allow-Headers'' = Some ''Content-Type''\<close>
  using cors_on_every_response [OF exchange_unknown_request, of
      \<open>\<lparr>status = 404, header_fields = cors_fields @ json_type,
              body = ''{"error":"Not found"}''\<rparr>\<close>]
    exchange_unknown_request
  by (simp add: response_of_not_found)

section \<open>Malformed bodies and unknown paths\<close>

text \<open>
  Where \<^verbatim>\<open>url.parse\<close> returns: a POST request whose buffered body \<^verbatim>\<open>JSON.parse\<close> rejects
  is answered 400 with \<^verbatim>\<open>{"error":"Invalid JSON"}\<close>, whatever the pathname, and that is
  not the 404 response; no adapter is called and no outbound request is issued.
\<close>

lemma malformed_body:
  assumes "req_method req = ''POST''"
    and "pathname_of n (url req) = Inr pathname"
    and "JSON_parse n (concat (map buffer_toString (chunks req))) = Inl e"
  shows \<open>exchange n keys req up =
           Inr \<lparr>calls = cors @ reply n 400 ''Invalid JSON'', invoked = None, issued = None\<rparr>
       \<and> response_of (cors @ reply n 400 ''Invalid JSON'') =
           Some \<lparr>status = 400, header_fields = cors_fields @ json_type,
                  body = ''{"error":"Invalid JSON"}''\<rparr>\<close>
  by (simp only: exchange_malformed [OF assms] response_of_invalid_json simp_thms)

text \<open>
  Where \<^verbatim>\<open>url.parse\<close> returns: the pathname of an origin-form target is the text before
  the question mark, and a POST request whose body parses and whose pathname is none
  of the three is answered 404 with \<^verbatim>\<open>{"error":"Not found"}\<close>; no adapter is called.
\<close>

lemma pathname_query:
  assumes "plain_target (p @ ascii ''?'' @ q)" and "0x3F \<notin> set p"
  shows "pathname_of n (p @ ascii ''?'' @ q) = Inr (Some p)"
  using assms by (simp add: pathname_of_def ascii_def takeWhile_query)

lemma unknown_path:
  assumes "req_method req = ''POST''"
    and "pathname_of n (url req) = Inr pathname"
    and "pathname \<noteq> Some (ascii ''/anthropic'')"
    and "pathname \<noteq> Some (ascii ''/openai'')"
    and "pathname \<noteq> Some (ascii ''/google'')"
    and "JSON_parse n (concat (map buffer_toString (chunks req))) = Inr data"
  shows \<open>exchange n keys req up =
           Inr \<lparr>calls = cors @ reply n 404 ''Not found'', invoked = None, issued = None\<rparr>
       \<and> response_of (cors @ reply n 404 ''Not found'') =
           Some \<lparr>status = 404, header_fields = cors_fields @ json_type,
                  body = ''{"error":"Not found"}''\<rparr>\<close>
proof -
  have "server n keys req =
      Inr \<lparr>calls = cors @ reply n 404 ''Not found'', invoked = None, issued = None\<rparr>"
    by (simp only: server_post [OF assms(1,2)] on_end_unrouted [OF assms(6,3,4,5)])
  then have "exchange n keys req up =
        Inr \<lparr>calls = cors @ reply n 404 ''Not found'', invoked = None, issued = None\<rparr>"
    by (rule exchange_unissued) simp
  then show ?thesis
    by (simp only: response_of_not_found simp_thms)
qed

text \<open>The requests of the specification's examples, on a pathname that \<^verbatim>\<open>url.parse\<close> finds.\<close>

lemma malformed_examples:
  \<open>exchange sample_node sample_keys (post ''/anthropic'' [''not-json'']) Hung =
     Inr \<lparr>calls = cors @ reply sample_node 400 ''Invalid JSON'', invoked = None, issued = None\<rparr>\<close>
  \<open>exchange sample_node sample_keys (post ''/unknown'' [''not-'', ''json'']) Hung =
     Inr \<lparr>calls = cors @ reply sample_node 400 ''Invalid JSON'', invoked = None, issued = None\<rparr>\<close>
proof -
  have a: "JSON_parse sample_node (concat (map buffer_toString [''not-json''])) =
      Inl (SyntaxError ''Unexpected token'')"
    using sample_parse(7) by (simp add: buffer_toString_ascii)
  have b: "JSON_parse sample_node (concat (map buffer_toString [''not-'', ''json''])) =
      Inl (SyntaxError ''Unexpected token'')"
    using sample_parse(7) by (simp add: buffer_toString_ascii ascii_append [symmetric])
  show \<open>exchange sample_node sample_keys (post ''/anthropic'' [''not-json'']) Hung =
     Inr \<lparr>calls = cors @ reply sample_node 400 ''Invalid JSON'', invoked = None, issued = None\<rparr>\<close>
    by (rule exchange_malformed) (simp_all only: post_simps pathname_plain a)
  show \<open>exchange sample_node sample_keys (post ''/unknown'' [''not-'', ''json'']) Hung =
     Inr \<lparr>calls = cors @ reply sample_node 400 ''Invalid JSON'', invoked = None, issued = None\<rparr>\<close>
    by (rule exchange_malformed) (simp_all only: post_simps pathname_plain b)
qed

text \<open>
  C8. The claim: every POST request whose buffered body fails to parse is answered 400
  with \<^verbatim>\<open>{"error":"Invalid JSON"}\<close>. The code, at a POST request with the body
  \<^verbatim>\<open>not-json\<close> and a request target on which \<^verbatim>\<open>url.parse\<close> throws (line 29, outside the
  \<^verbatim>\<open>try\<close> block): the exception leaves the listener before the body is read, and the
  caller gets no response.
\<close>

theorem malformed_body_unanswered:
  "JSON_parse sample_node (concat (map buffer_toString [''not-json''])) =
     Inl (SyntaxError ''Unexpected token'')
   \<and> exchange sample_node sample_keys (post ''http://[/'' [''not-json'']) Hung =
       Inl (TypeError ''Invalid URL'')"
proof -
  have "JSON_parse sample_node (concat (map buffer_toString [''not-json''])) =
      Inl (SyntaxError ''Unexpected token'')"
    using sample_parse(7) by (simp add: buffer_toString_ascii)
  moreover have "server sample_node sample_keys (post ''http://[/'' [''not-json'']) =
      Inl (TypeError ''Invalid URL'')"
    by (simp add: server_def pathname_throws)
  then have "exchange sample_node sample_keys (post ''http://[/'' [''not-json'']) Hung =
      Inl (TypeError ''Invalid URL'')"
    by (rule exchange_throws)
  ultimately show ?thesis
    by (intro conjI)
qed

text \<open>
  C9. The claim: every POST request whose body is valid JSON and whose path is none of
  \<^verbatim>\<open>/anthropic\<close>, \<^verbatim>\<open>/openai\<close>, \<^verbatim>\<open>/google\<close> is answered 404 with \<^verbatim>\<open>{"error":"Not found"}\<close>.
  The code, at a POST request with the body \<^verbatim>\<open>{}\<close> and a request target on which
  \<^verbatim>\<open>url.parse\<close> throws: the exception leaves the listener, and the caller gets no
  response.
\<close>

theorem unknown_path_unanswered:
  "JSON_parse sample_node (concat (map buffer_toString [''{}''])) = Inr (Obj [])
   \<and> exchange sample_node sample_keys (post ''http://[/'' [''{}'']) Hung =
       Inl (TypeError ''Invalid URL'')"
proof -
  have "server sample_node sample_keys (post ''http://[/'' [''{}'']) =
      Inl (TypeError ''Invalid URL'')"
    by (simp add: server_def pathname_throws)
  then have "exchange sample_node sample_keys (post ''http://[/'' [''{}'']) Hung =
      Inl (TypeError ''Invalid URL'')"
    by (rule exchange_throws)
  with sample_empty show ?thesis
    by (intro conjI)
qed

text \<open>
  C10. The claim: a POST request to a path that is none of the three, with a body that
  is not valid JSON, is answered 400 with \<^verbatim>\<open>{"error":"Invalid JSON"}\<close> and not 404. The
  code, at such a request in two chunks whose target makes \<^verbatim>\<open>url.parse\<close> throw: the
  exception leaves the listener before the body is parsed, so the caller gets neither
  the 400 nor the 404 response.
\<close>

theorem malformed_unknown_unanswered:
  \<open>JSON_parse sample_node (concat (map buffer_toString [''not-'', ''json''])) =
     Inl (SyntaxError ''Unexpected token'')
   \<and> map_sum id (\<lambda>h. response_of (calls h))
       (exchange sample_node sample_keys (post ''http://[/'' [''not-'', ''json'']) Hung) =
       Inl (TypeError ''Invalid URL'')
   \<and> map_sum id (\<lambda>h. response_of (calls h))
       (exchange sample_node sample_keys (post ''http://[/'' [''not-'', ''json'']) Hung) \<noteq>
       Inr (Some \<lparr>status = 400, header_fields = cors_fields @ json_type,
                   body = ''{"error":"Invalid JSON"}''\<rparr>)\<close>
proof -
  have "JSON_parse sample_node (concat (map buffer_toString [''not-'', ''json''])) =
      Inl (SyntaxError ''Unexpected token'')"
    using sample_parse(7) by (simp add: buffer_toString_ascii ascii_append [symmetric])
  moreover have "server sample_node sample_keys (post ''http://[/'' [''not-'', ''json'']) =
      Inl (TypeError ''Invalid URL'')"
    by (simp add: server_def pathname_throws)
  then have "exchange sample_node sample_keys (post ''http://[/'' [''not-'', ''json'']) Hung =
      Inl (TypeError ''Invalid URL'')"
    by (rule exchange_throws)
  ultimately show ?thesis
    by simp
qed

end
